theory Spec2Isabelle
  imports Main "HOL-Library.Sublist" "HOL-Library.AList" "HOL-Library.List_Lexorder"
    "HOL-Library.Char_ord"
begin

section \<open>Python strings, regular expressions and dictionaries used by sodepends.py\<close>

text \<open>
  A Python \<open>str\<close> is a \<open>string\<close> (a list of characters). The three string tests of the
  source are \<open>s.startswith(p)\<close>, \<open>s.endswith(p)\<close> and \<open>sub in s\<close>.
\<close>

definition newline :: char where
  "newline = CHR 0x0A"

definition startswith :: "string \<Rightarrow> string \<Rightarrow> bool" where
  "startswith s p = prefix p s"

definition endswith :: "string \<Rightarrow> string \<Rightarrow> bool" where
  "endswith s p = suffix p s"

fun str_in :: "string \<Rightarrow> string \<Rightarrow> bool" where
  "str_in sub [] = (sub = [])"
| "str_in sub (c # cs) = (prefix sub (c # cs) \<or> str_in sub cs)"

text \<open>\<open>str(n)\<close> for a Python \<open>int\<close>: the decimal numeral, with a minus sign below zero.\<close>

fun digits_of_nat :: "nat \<Rightarrow> string" where
  "digits_of_nat n =
     (if n < 10 then [''0123456789'' ! n]
      else digits_of_nat (n div 10) @ [''0123456789'' ! (n mod 10)])"

declare digits_of_nat.simps [simp del]

definition str_int :: "int \<Rightarrow> string" where
  "str_int i = (if i < 0 then CHR ''-'' # digits_of_nat (nat (- i)) else digits_of_nat (nat i))"

text \<open>
  \<open>os.path.dirname\<close> of posixpath: the head is everything up to and including the last
  slash; trailing slashes of the head are stripped unless the head consists of slashes only.
\<close>

definition dirname :: "string \<Rightarrow> string" where
  "dirname p =
     (let head = rev (dropWhile (\<lambda>c. c \<noteq> CHR ''/'') (rev p))
      in if head \<noteq> [] \<and> \<not> list_all (\<lambda>c. c = CHR ''/'') head
         then rev (dropWhile (\<lambda>c. c = CHR ''/'') (rev head))
         else head)"

subsection \<open>The four regular expressions\<close>

text \<open>
  \<open>is_so = re.compile(r"\.so")\<close> with \<open>is_so.search(j)\<close>: the pattern is a literal, so the
  search succeeds exactly when \<open>.so\<close> occurs somewhere in \<open>j\<close>.
\<close>

definition is_so_search :: "string \<Rightarrow> bool" where
  "is_so_search j = str_in ''.so'' j"

text \<open>
  \<open>so_end = re.compile(r"(\.\d+)*")\<close> with \<open>so_end.match(s)\<close>: the match is attempted at the
  start of \<open>s\<close> and is not anchored at its end. Each round of the starred group takes a dot
  and then, greedily, one or more digits; a round that cannot be completed ends the
  repetition with what was matched before. The result is the length of the match
  (\<open>Some n\<close> for a match object, \<open>None\<close> for Python's \<open>None\<close>). Characters are bytes
  here, so \<open>\d\<close> is one of the ten ASCII digits.
\<close>

definition is_digit :: "char \<Rightarrow> bool" where
  "is_digit c = (c \<in> set ''0123456789'')"

function so_end_match :: "string \<Rightarrow> nat option" where
  "so_end_match s =
     (if s \<noteq> [] \<and> hd s = CHR ''.'' \<and> takeWhile is_digit (tl s) \<noteq> []
      then map_option (\<lambda>n. 1 + length (takeWhile is_digit (tl s)) + n)
             (so_end_match (dropWhile is_digit (tl s)))
      else Some 0)"
  by pat_completeness auto
termination
proof (relation "measure length")
  show "wf (measure length)" by simp
next
  fix s :: string
  assume "s \<noteq> [] \<and> hd s = CHR ''.'' \<and> takeWhile is_digit (tl s) \<noteq> []"
  then have "length (tl s) < length s" by (cases s) simp_all
  moreover have "length (dropWhile is_digit (tl s)) \<le> length (tl s)"
    by (rule length_dropWhile_le)
  ultimately show "(dropWhile is_digit (tl s), s) \<in> measure length" by simp
qed

declare so_end_match.simps [simp del]

text \<open>
  \<open>re.sub(r"\.so.*", ".so", name)\<close>: the string is scanned from the left; where \<open>.so\<close>
  starts, the match runs on to the end of the line (the dot of \<open>.*\<close> matches every character
  but the line feed), it is replaced by \<open>.so\<close>, and the scan goes on behind the match.
\<close>

function soname :: "string \<Rightarrow> string" where
  "soname [] = []"
| "soname (c # cs) =
     (if prefix ''.so'' (c # cs)
      then ''.so'' @ soname (dropWhile (\<lambda>x. x \<noteq> newline) (drop 3 (c # cs)))
      else c # soname cs)"
  by pat_completeness auto
termination
proof (relation "measure length")
  show "wf (measure length)" by simp
next
  fix c :: char and cs :: string
  have "length (dropWhile (\<lambda>x. x \<noteq> newline) (drop 3 (c # cs))) \<le> length (drop 3 (c # cs))"
    by (rule length_dropWhile_le)
  then show "(dropWhile (\<lambda>x. x \<noteq> newline) (drop 3 (c # cs)), c # cs) \<in> measure length"
    by simp
next
  fix c :: char and cs :: string
  show "(cs, c # cs) \<in> measure length" by simp
qed

text \<open>
  \<open>re.sub(r"^.*\.so\.", "", name)\<close>: \<open>^\<close> lets the pattern match at the start of the string
  only. \<open>.*\<close> is greedy: it first takes as many characters of the first line as it can and
  gives them back one at a time until \<open>.so.\<close> follows. \<open>match_upto_so_dot\<close> returns what
  is left of the string behind the match.
\<close>

fun match_upto_so_dot :: "string \<Rightarrow> string option" where
  "match_upto_so_dot [] = None"
| "match_upto_so_dot (c # cs) =
     (case (if c \<noteq> newline then match_upto_so_dot cs else None) of
        Some r \<Rightarrow> Some r
      | None \<Rightarrow> if prefix ''.so.'' (c # cs) then Some (drop 4 (c # cs)) else None)"

definition soversion :: "string \<Rightarrow> string" where
  "soversion name = (case match_upto_so_dot name of Some r \<Rightarrow> r | None \<Rightarrow> name)"

text \<open>The dictionary key \<open>soname + "=" + soversion + "-" + str(bitsize)\<close>.\<close>

definition lib_key :: "string \<Rightarrow> int \<Rightarrow> string" where
  "lib_key name bitsize = soname name @ ''='' @ soversion name @ ''-'' @ str_int bitsize"

subsection \<open>Dictionaries\<close>

text \<open>
  A Python \<open>dict\<close> keeps its keys in insertion order, and assigning to a key that is present
  keeps the key's place: this is an association list under \<open>AList.update\<close>, read with
  \<open>map_of\<close>. \<open>dd_add k x d\<close> is \<open>d[k].add(x)\<close> on a \<open>defaultdict(set)\<close>; \<open>dd_set d k\<close> and
  \<open>dd_str d k\<close> read \<open>d[k]\<close> from a \<open>defaultdict(set)\<close> and a \<open>defaultdict(str)\<close>.
\<close>

definition dd_set :: "('k \<times> 'v set) list \<Rightarrow> 'k \<Rightarrow> 'v set" where
  "dd_set d k = (case map_of d k of Some s \<Rightarrow> s | None \<Rightarrow> {})"

definition dd_str :: "('k \<times> string) list \<Rightarrow> 'k \<Rightarrow> string" where
  "dd_str d k = (case map_of d k of Some s \<Rightarrow> s | None \<Rightarrow> [])"

definition dd_add :: "'k \<Rightarrow> 'v \<Rightarrow> ('k \<times> 'v set) list \<Rightarrow> ('k \<times> 'v set) list" where
  "dd_add k x d = AList.update k (insert x (dd_set d k)) d"

section \<open>The binary scanner: \<open>scanlibs\<close>\<close>

text \<open>
  What the source reads from a parsed ELF file (pyelftools): the word size
  \<open>elffile.elfclass\<close>, a Python \<open>int\<close>, and the sections, of which only dynamic sections
  are visited; of a dynamic tag only \<open>d_tag\<close> and the name it carries (\<open>tag.soname\<close>,
  \<open>tag.needed\<close>) are read. \<open>fileobj\<close> is \<open>None\<close> for a file that \<open>is_elf\<close> rejects.
\<close>

datatype architecture = I686 | X86_64

datatype tag = DT_SONAME string | DT_NEEDED string | DT_OTHER

datatype elf_section = DynamicSection "tag list" | OtherSection

record elffile =
  elfclass :: int
  sections :: "elf_section list"

text \<open>
  The global \<open>libcache\<close> has one dictionary from library names to paths for each of the two
  architectures. \<open>os.path.abspath\<close> depends on the working directory of the process and is
  a parameter of the scanner.
\<close>

type_synonym libcache = "architecture \<Rightarrow> string \<rightharpoonup> string"

text \<open>
  The three dictionaries that \<open>scanlibs\<close> fills: \<open>liblist\<close> (path to the set of files that
  need it), \<open>libdepends\<close> (key to path) and \<open>libprovides\<close> (key to the set of providing
  files).
\<close>

record libs =
  liblist :: "(string \<times> string set) list"
  libdepends :: "(string \<times> string) list"
  libprovides :: "(string \<times> string set) list"

datatype error = UnboundLocalError

text \<open>
  The \<open>match bitsize\<close> statement has the two cases 32 and 64 and no default: for any other
  value the local variable \<open>architecture\<close> stays unbound (\<open>None\<close> here), and reading it
  raises \<open>UnboundLocalError\<close>.
\<close>

definition match_bitsize :: "int \<Rightarrow> architecture option" where
  "match_bitsize bitsize =
     (if bitsize = 32 then Some I686 else if bitsize = 64 then Some X86_64 else None)"

text \<open>
  The body of the loop over the tags of a dynamic section. For a needed library that is in
  \<open>custom_libs\<close> the source assigns \<open>libpath\<close> and then executes \<open>continue\<close>: the two
  stores below it are not reached. The \<open>KeyError\<close> of a failed cache lookup is caught and
  gives the library name as path.
\<close>

definition scan_tag ::
  "libcache \<Rightarrow> (string \<Rightarrow> string) \<Rightarrow> string \<Rightarrow> (string \<rightharpoonup> string) \<Rightarrow> int \<Rightarrow> tag \<Rightarrow> libs
     \<Rightarrow> error + libs" where
  "scan_tag cache abspath filename custom_libs bitsize t st =
     (let architecture = match_bitsize bitsize;
          st1 = (case t of
                   DT_SONAME sn \<Rightarrow>
                     if dirname filename \<in> set [''usr/lib'', ''usr/lib32'']
                     then st\<lparr>libprovides := dd_add (lib_key sn bitsize) filename (libprovides st)\<rparr>
                     else st
                 | _ \<Rightarrow> st)
      in case t of
           DT_NEEDED libname \<Rightarrow>
             (case custom_libs libname of
                Some p \<Rightarrow> (let libpath = drop 1 p in Inr st1)
              | None \<Rightarrow>
                  (case architecture of
                     None \<Rightarrow> Inl UnboundLocalError
                   | Some a \<Rightarrow>
                       (let libpath = (case cache a libname of
                                         Some p \<Rightarrow> drop 1 (abspath p)
                                       | None \<Rightarrow> libname)
                        in Inr (st1\<lparr>libdepends :=
                                     AList.update (lib_key libname bitsize) libpath (libdepends st1),
                                   liblist := dd_add libpath filename (liblist st1)\<rparr>))))
         | _ \<Rightarrow> Inr st1)"

fun scan_tags ::
  "libcache \<Rightarrow> (string \<Rightarrow> string) \<Rightarrow> string \<Rightarrow> (string \<rightharpoonup> string) \<Rightarrow> int \<Rightarrow> tag list \<Rightarrow> libs
     \<Rightarrow> error + libs" where
  "scan_tags cache abspath filename custom_libs bitsize [] st = Inr st"
| "scan_tags cache abspath filename custom_libs bitsize (t # ts) st =
     (case scan_tag cache abspath filename custom_libs bitsize t st of
        Inl e \<Rightarrow> Inl e
      | Inr st' \<Rightarrow> scan_tags cache abspath filename custom_libs bitsize ts st')"

fun scan_sections ::
  "libcache \<Rightarrow> (string \<Rightarrow> string) \<Rightarrow> string \<Rightarrow> (string \<rightharpoonup> string) \<Rightarrow> int \<Rightarrow> elf_section list
     \<Rightarrow> libs \<Rightarrow> error + libs" where
  "scan_sections cache abspath filename custom_libs bitsize [] st = Inr st"
| "scan_sections cache abspath filename custom_libs bitsize (OtherSection # ss) st =
     scan_sections cache abspath filename custom_libs bitsize ss st"
| "scan_sections cache abspath filename custom_libs bitsize (DynamicSection ts # ss) st =
     (case scan_tags cache abspath filename custom_libs bitsize ts st of
        Inl e \<Rightarrow> Inl e
      | Inr st' \<Rightarrow> scan_sections cache abspath filename custom_libs bitsize ss st')"

definition scanlibs ::
  "libcache \<Rightarrow> (string \<Rightarrow> string) \<Rightarrow> elffile option \<Rightarrow> string \<Rightarrow> (string \<rightharpoonup> string) \<Rightarrow> libs
     \<Rightarrow> error + libs" where
  "scanlibs cache abspath fileobj filename custom_libs st =
     (case fileobj of
        None \<Rightarrow> Inr st
      | Some elf \<Rightarrow>
          scan_sections cache abspath filename custom_libs (elfclass elf) (sections elf) st)"


section \<open>The dependency resolver: \<open>finddepends\<close>\<close>

text \<open>
  An installed package as the resolver reads it: its name, its file records
  \<open>(path, size, mode)\<close> and its declared provisions. \<open>os.path.realpath\<close> reads the file
  system and is a parameter; the installed packages are a parameter as well.
\<close>

record package =
  pkg_name :: string
  pkg_files :: "(string \<times> int \<times> int) list"
  pkg_provides :: "string list"

record found =
  dependlist :: "(string \<times> string set) list"
  libdependlist :: "(string \<times> string) list"
  missing_provides :: "(string \<times> string) list"
  foundlibs :: "string set"

text \<open>
  \<open>knownlibs = set(libdepends)\<close>: the keys, each once. Python does not specify the order
  in which a set is iterated; the model takes the order of the keys in the dictionary. The
  lemmas on the resolver's loops describe every entry of the resulting maps and the set of
  found keys without reference to that order.
\<close>

definition knownlibs :: "(string \<times> string) list \<Rightarrow> string list" where
  "knownlibs deps = remdups (map fst deps)"

definition actualpath :: "(string \<Rightarrow> string) \<Rightarrow> (string \<times> string) list \<Rightarrow> string \<Rightarrow> string" where
  "actualpath realpath deps k = drop 1 (realpath (CHR ''/'' # dd_str deps k))"

text \<open>
  The test of line 111. A match object is true and \<open>None\<close> is false in a Python condition.
\<close>

definition truthy :: "'a option \<Rightarrow> bool" where
  "truthy m = (case m of Some x \<Rightarrow> True | None \<Rightarrow> False)"

definition lib_match :: "string \<Rightarrow> string \<Rightarrow> bool" where
  "lib_match j path =
     (j = path \<or> (startswith j path \<and> truthy (so_end_match (drop (length path) j))))"

definition match_key ::
  "(string \<Rightarrow> string) \<Rightarrow> (string \<times> string) list \<Rightarrow> package \<Rightarrow> string \<Rightarrow> string \<Rightarrow> found \<Rightarrow> found"
  where
  "match_key realpath deps pkg j k st =
     (if lib_match j (actualpath realpath deps k)
      then (let st1 = st\<lparr>dependlist := dd_add (pkg_name pkg) (dd_str deps k) (dependlist st),
                          foundlibs := insert k (foundlibs st)\<rparr>
            in if k \<in> set (pkg_provides pkg)
               then st1\<lparr>libdependlist := AList.update k (pkg_name pkg) (libdependlist st1)\<rparr>
               else st1\<lparr>missing_provides := AList.update k (pkg_name pkg) (missing_provides st1)\<rparr>)
      else st)"

definition match_file ::
  "(string \<Rightarrow> string) \<Rightarrow> (string \<times> string) list \<Rightarrow> package \<Rightarrow> string \<times> int \<times> int \<Rightarrow> found
     \<Rightarrow> found" where
  "match_file realpath deps pkg f st =
     (case f of (j, fsize, fmode) \<Rightarrow>
        if \<not> is_so_search j then st
        else fold (match_key realpath deps pkg j) (knownlibs deps) st)"

definition match_pkg ::
  "(string \<Rightarrow> string) \<Rightarrow> (string \<times> string) list \<Rightarrow> package \<Rightarrow> found \<Rightarrow> found" where
  "match_pkg realpath deps pkg st =
     fold (match_file realpath deps pkg) (pkg_files pkg) st"

definition match_all ::
  "(string \<Rightarrow> string) \<Rightarrow> package list \<Rightarrow> (string \<times> string) list \<Rightarrow> found" where
  "match_all realpath installed deps =
     fold (match_pkg realpath deps) installed
       \<lparr>dependlist = [], libdependlist = [], missing_provides = [], foundlibs = {}\<rparr>"

definition finddepends ::
  "(string \<Rightarrow> string) \<Rightarrow> package list \<Rightarrow> (string \<times> string) list
     \<Rightarrow> (string \<times> string set) list \<times> (string \<times> string) list \<times> string list \<times> (string \<times> string) list"
  where
  "finddepends realpath installed deps =
     (let st = match_all realpath installed deps;
          orphans = filter (\<lambda>k. k \<notin> foundlibs st) (knownlibs deps)
      in (dependlist st, libdependlist st, orphans, missing_provides st))"

section \<open>The reconciliation reporter: \<open>SharedLibsRule.analyze\<close>\<close>

text \<open>
  A diagnostic is the pair that the source appends to \<open>self.infos\<close>, \<open>self.warnings\<close> or
  \<open>self.errors\<close>: the message template and the tuple of its arguments. An argument is a
  string, or the rendering \<open>str(list(s))\<close> of a set of strings; a Python set has no
  specified iteration order, so the argument keeps the set.
\<close>

datatype arg = Str string | Files "string set"

type_synonym diag = "string \<times> arg list"

record pkginfo =
  pi_name :: string
  pi_depends :: "string list"
  pi_optdepends :: "string list"
  pi_provides :: "string list"
  detected_deps :: "(string \<times> diag list) list"

record report =
  infos :: "diag list"
  warnings :: "diag list"
  errors :: "diag list"
  reasons :: "(string \<times> diag list) list"

text \<open>
  An entry of the tarball. The override map \<open>rpath_files\<close> of an entry is computed in lines
  159 to 167 from the rpath and runpath lists of the file, which come from other modules;
  here the entry carries it.
\<close>

record entry =
  entry_isfile :: bool
  entry_name :: string
  entry_fileobj :: "elffile option"
  entry_rpath_files :: "string \<rightharpoonup> string"

fun scan_entries :: "libcache \<Rightarrow> (string \<Rightarrow> string) \<Rightarrow> entry list \<Rightarrow> libs \<Rightarrow> error + libs" where
  "scan_entries cache abspath [] st = Inr st"
| "scan_entries cache abspath (e # es) st =
     (if \<not> entry_isfile e then scan_entries cache abspath es st
      else (case scanlibs cache abspath (entry_fileobj e) (entry_name e) (entry_rpath_files e) st of
              Inl x \<Rightarrow> Inl x
            | Inr st' \<Rightarrow> scan_entries cache abspath es st'))"

text \<open>\<open>" ".join(xs)\<close> and \<open>sorted(set(xs) | set(ys))\<close>.\<close>

fun join :: "string \<Rightarrow> string list \<Rightarrow> string" where
  "join sep [] = []"
| "join sep [x] = x"
| "join sep (x # y # ys) = x @ sep @ join sep (y # ys)"

definition sorted_union :: "string list \<Rightarrow> string list \<Rightarrow> string list" where
  "sorted_union xs ys = sort (remdups (xs @ ys))"

text \<open>Lines 175 and 176: \<open>dict(filter(lambda elem: elem[1] != pkginfo["name"], d.items()))\<close>.\<close>

definition filter_internal :: "string \<Rightarrow> (string \<times> string) list \<Rightarrow> (string \<times> string) list" where
  "filter_internal name d = filter (\<lambda>elem. snd elem \<noteq> name) d"

text \<open>
  The requesting files of a key, \<open>str(list(liblist[libdepends[i]]))\<close>, and the three lists
  of diagnostics that are built from the resolver's result. A loop \<open>for i in d\<close> that reads
  \<open>d[i]\<close> runs over the items of \<open>d\<close>.
\<close>

definition requesters :: "libs \<Rightarrow> string \<Rightarrow> arg" where
  "requesters st i = Files (dd_set (liblist st) (dd_str (libdepends st) i))"

definition orphan_warnings :: "libs \<Rightarrow> string list \<Rightarrow> diag list" where
  "orphan_warnings st orphans =
     map (\<lambda>i. (''library-no-package-associated %s %s'',
               [Str (dd_str (libdepends st) i), requesters st i])) orphans"

definition missing_provides_infos :: "libs \<Rightarrow> (string \<times> string) list \<Rightarrow> diag list" where
  "missing_provides_infos st mp =
     map (\<lambda>(i, owner). (''libdepends-missing-provides %s %s (%s)'',
                        [Str i, Str owner, requesters st i])) mp"

definition link_level_infos :: "(string \<times> string set) list \<Rightarrow> diag list" where
  "link_level_infos dl =
     map (\<lambda>(pkg, libraries). (''link-level-dependence %s in %s'', [Str pkg, Files libraries])) dl"

definition link_level_reasons ::
  "libs \<Rightarrow> (string \<times> string set) list \<Rightarrow> (string \<times> diag list) list \<Rightarrow> (string \<times> diag list) list"
  where
  "link_level_reasons st dl detected =
     fold (\<lambda>(pkg, libraries) d.
             AList.update pkg
               ((case map_of d pkg of Some rs \<Rightarrow> rs | None \<Rightarrow> []) @
                [(''libraries-needed %s %s'',
                  [Files libraries, Files (\<Union> (dd_set (liblist st) ` libraries))])]) d)
       dl detected"

definition soname_info :: "pkginfo \<Rightarrow> libs \<Rightarrow> string \<times> string \<Rightarrow> diag" where
  "soname_info pkginfo st elem =
     (case elem of (i, owner) \<Rightarrow>
        if i \<in> set (pi_depends pkginfo)
        then (''libdepends-detected-satisfied %s %s (%s)'', [Str i, Str owner, requesters st i])
        else if i \<in> set (pi_optdepends pkginfo)
        then (''libdepends-detected-but-optional %s %s (%s)'', [Str i, Str owner, requesters st i])
        else (''libdepends-detected-not-included %s %s (%s)'', [Str i, Str owner, requesters st i]))"

text \<open>Lines 228 to 232 and 248 to 252: the loops over the declared entries.\<close>

definition depends_warnings :: "string list \<Rightarrow> (string \<times> string) list \<Rightarrow> diag list" where
  "depends_warnings depends ldl =
     map (\<lambda>i. (''libdepends-not-needed %s'', [Str i]))
       (filter (\<lambda>i. str_in ''.so'' i \<and> i \<notin> fst ` set ldl) depends)"

definition depends_errors :: "string list \<Rightarrow> diag list" where
  "depends_errors depends =
     map (\<lambda>i. (''libdepends-without-version %s'', [Str i]))
       (filter (\<lambda>i. endswith i ''.so'') depends)"

definition provides_infos :: "pkginfo \<Rightarrow> (string \<times> string set) list \<Rightarrow> diag list" where
  "provides_infos pkginfo lp =
     map (\<lambda>(i, files).
            if i \<in> set (pi_provides pkginfo)
            then (''libprovides-satisfied %s %s'', [Str i, Files files])
            else (''libprovides-unsatisfied %s %s'', [Str i, Files files])) lp"

definition provides_warnings :: "string list \<Rightarrow> (string \<times> string set) list \<Rightarrow> diag list" where
  "provides_warnings provides lp =
     map (\<lambda>i. (''libprovides-missing %s'', [Str i]))
       (filter (\<lambda>i. str_in ''.so'' i \<and> i \<notin> fst ` set lp) provides)"

definition provides_errors :: "string list \<Rightarrow> diag list" where
  "provides_errors provides =
     map (\<lambda>i. (''libprovides-without-version %s'', [Str i]))
       (filter (\<lambda>i. endswith i ''.so'') provides)"

text \<open>
  Lines 257 to 261. The two package loaders are parameters: each gives the version of the
  package it finds, or \<open>None\<close>.
\<close>

definition testing_warnings ::
  "(string \<Rightarrow> string option) \<Rightarrow> (string \<Rightarrow> string option) \<Rightarrow> (string \<times> string set) list \<Rightarrow> diag list"
  where
  "testing_warnings load_testing_package load_from_db dl =
     map (\<lambda>i. (''dependency-is-testing-release %s'', [Str i]))
       (filter (\<lambda>i. case (load_testing_package i, load_from_db i) of
                      (Some p, Some q) \<Rightarrow> p = q
                    | _ \<Rightarrow> False) (map fst dl))"

text \<open>Lines 172 to 261: everything that follows the scan of the files.\<close>

definition report_libs ::
  "(string \<Rightarrow> string) \<Rightarrow> package list \<Rightarrow> (string \<Rightarrow> string option) \<Rightarrow> (string \<Rightarrow> string option)
     \<Rightarrow> pkginfo \<Rightarrow> libs \<Rightarrow> report" where
  "report_libs realpath installed load_testing_package load_from_db pkginfo st =
     (case finddepends realpath installed (libdepends st) of
        (dl, ldl0, orphans, mp0) \<Rightarrow>
          (let ldl = filter_internal (pi_name pkginfo) ldl0;
               mp = filter_internal (pi_name pkginfo) mp0
           in \<lparr>infos =
                  missing_provides_infos st mp @ link_level_infos dl @
                  map (soname_info pkginfo st) ldl @
                  [(''libdepends-by-namcap-sight depends=(%s)'',
                    [Str (join '' '' (sorted_union (map fst ldl) (map snd mp)))])] @
                  provides_infos pkginfo (libprovides st) @
                  [(''libprovides-by-namcap-sight provides=(%s)'',
                    [Str (join '' '' (map fst (libprovides st)))])],
                warnings =
                  orphan_warnings st orphans @ depends_warnings (pi_depends pkginfo) ldl @
                  provides_warnings (pi_provides pkginfo) (libprovides st) @
                  testing_warnings load_testing_package load_from_db dl,
                errors =
                  depends_errors (pi_depends pkginfo) @ provides_errors (pi_provides pkginfo),
                reasons = link_level_reasons st dl (detected_deps pkginfo)\<rparr>))"

definition analyze ::
  "libcache \<Rightarrow> (string \<Rightarrow> string) \<Rightarrow> (string \<Rightarrow> string) \<Rightarrow> package list \<Rightarrow> (string \<Rightarrow> string option)
     \<Rightarrow> (string \<Rightarrow> string option) \<Rightarrow> pkginfo \<Rightarrow> entry list \<Rightarrow> error + report" where
  "analyze cache abspath realpath installed load_testing_package load_from_db pkginfo tar =
     (case scan_entries cache abspath tar \<lparr>liblist = [], libdepends = [], libprovides = []\<rparr> of
        Inl x \<Rightarrow> Inl x
      | Inr st \<Rightarrow>
          Inr (report_libs realpath installed load_testing_package load_from_db pkginfo st))"

section \<open>Notions of the specification\<close>

text \<open>
  The specification speaks of the first occurrence of \<open>.so\<close> and of the last occurrence of
  \<open>.so.\<close> in a name. \<open>occurs_at sub s i\<close> says that \<open>sub\<close> stands in \<open>s\<close> at index \<open>i\<close>;
  the first and the last occurrence are the least and the greatest such index.
\<close>

definition occurs_at :: "string \<Rightarrow> string \<Rightarrow> nat \<Rightarrow> bool" where
  "occurs_at sub s i = prefix sub (drop i s)"

definition first_occurrence :: "string \<Rightarrow> string \<Rightarrow> nat option" where
  "first_occurrence sub s = List.find (occurs_at sub s) [0..<Suc (length s)]"

definition last_occurrence :: "string \<Rightarrow> string \<Rightarrow> nat option" where
  "last_occurrence sub s = List.find (occurs_at sub s) (rev [0..<Suc (length s)])"

text \<open>
  A file record of an installed package matches a required key when the resolver looks at
  the file (its path contains \<open>.so\<close>) and the test of line 111 succeeds; a package matches
  the key when one of its files does. \<open>last_owner P installed\<close> is the name of the last
  package of the enumeration that satisfies \<open>P\<close>.
\<close>

definition file_matches :: "(string \<Rightarrow> string) \<Rightarrow> (string \<times> string) list \<Rightarrow> string \<Rightarrow> string \<times> int \<times> int \<Rightarrow> bool" where
  "file_matches rp deps k f = (is_so_search (fst f) \<and> lib_match (fst f) (actualpath rp deps k))"

definition pkg_matches :: "(string \<Rightarrow> string) \<Rightarrow> (string \<times> string) list \<Rightarrow> package \<Rightarrow> string \<Rightarrow> bool" where
  "pkg_matches realpath deps pkg k = list_ex (file_matches realpath deps k) (pkg_files pkg)"

definition last_owner :: "(package \<Rightarrow> bool) \<Rightarrow> package list \<Rightarrow> string option" where
  "last_owner P installed =
     (case filter P (rev installed) of [] \<Rightarrow> None | p # ps \<Rightarrow> Some (pkg_name p))"



text \<open>The templates of the three diagnostics that report a satisfied key.\<close>

definition detected_templates :: "string list" where
  "detected_templates =
     [''libdepends-detected-satisfied %s %s (%s)'', ''libdepends-detected-but-optional %s %s (%s)'',
      ''libdepends-detected-not-included %s %s (%s)'']"

section \<open>Key derivation\<close>

lemma find_map_option: "List.find P (map f xs) = map_option f (List.find (\<lambda>x. P (f x)) xs)"
  by (induction xs) simp_all

lemma find_append_case:
  "List.find P (xs @ ys) = (case List.find P xs of Some x \<Rightarrow> Some x | None \<Rightarrow> List.find P ys)"
  by (induction xs) simp_all

lemma upt_Suc_shift: "[0..<Suc (Suc n)] = 0 # map Suc [0..<Suc n]"
  by (simp add: upt_conv_Cons map_Suc_upt del: upt_Suc)

lemma occurs_at_0: "occurs_at sub s 0 = prefix sub s"
  by (simp add: occurs_at_def)

lemma occurs_at_Suc: "occurs_at sub (c # cs) (Suc i) = occurs_at sub cs i"
  by (simp add: occurs_at_def)

lemma first_occurrence_Cons:
  "first_occurrence sub (c # cs) =
     (if prefix sub (c # cs) then Some 0 else map_option Suc (first_occurrence sub cs))"
proof -
  have "first_occurrence sub (c # cs) =
      List.find (occurs_at sub (c # cs)) (0 # map Suc [0..<Suc (length cs)])"
    unfolding first_occurrence_def by (simp only: length_Cons upt_Suc_shift)
  also have "\<dots> = (if prefix sub (c # cs) then Some 0
      else map_option Suc (List.find (occurs_at sub cs) [0..<Suc (length cs)]))"
    by (simp only: find.simps occurs_at_0 find_map_option occurs_at_Suc)
  finally show ?thesis by (simp only: first_occurrence_def)
qed

lemma last_occurrence_Cons:
  "last_occurrence sub (c # cs) =
     (case last_occurrence sub cs of
        Some i \<Rightarrow> Some (Suc i)
      | None \<Rightarrow> if prefix sub (c # cs) then Some 0 else None)"
proof -
  have "last_occurrence sub (c # cs) =
      List.find (occurs_at sub (c # cs)) (map Suc (rev [0..<Suc (length cs)]) @ [0])"
    unfolding last_occurrence_def by (simp only: length_Cons upt_Suc_shift rev.simps rev_map)
  also have "\<dots> = (case List.find (occurs_at sub cs) (rev [0..<Suc (length cs)]) of
        Some i \<Rightarrow> Some (Suc i)
      | None \<Rightarrow> if prefix sub (c # cs) then Some 0 else None)"
    by (simp only: find_append_case find_map_option occurs_at_Suc find.simps occurs_at_0)
       (simp split: option.split)
  finally show ?thesis by (simp only: last_occurrence_def)
qed

lemma first_occurrence_Nil: "first_occurrence sub [] = (if sub = [] then Some 0 else None)"
  by (simp add: first_occurrence_def occurs_at_def)

lemma last_occurrence_Nil: "last_occurrence sub [] = (if sub = [] then Some 0 else None)"
  by (simp add: last_occurrence_def occurs_at_def)

lemma soname_first_occurrence:
  "newline \<notin> set name \<Longrightarrow>
   soname name = (case first_occurrence ''.so'' name of None \<Rightarrow> name | Some i \<Rightarrow> take i name @ ''.so'')"
proof (induction name)
  case Nil
  then show ?case by (simp add: first_occurrence_Nil)
next
  case (Cons c cs)
  show ?case
  proof (cases "prefix ''.so'' (c # cs)")
    case True
    have "\<forall>x\<in>set (drop 3 (c # cs)). x \<noteq> newline"
      using Cons.prems by (metis in_set_dropD)
    then have "dropWhile (\<lambda>x. x \<noteq> newline) (drop 3 (c # cs)) = []"
      by (simp only: dropWhile_eq_Nil_conv)
    with True show ?thesis
      by (simp only: soname.simps first_occurrence_Cons if_True option.case take_0 append_Nil
          append_Nil2)
  next
    case False
    have step: "soname (c # cs) = c # soname cs"
      using False by (simp only: soname.simps if_False)
    have ih: "soname cs =
        (case first_occurrence ''.so'' cs of None \<Rightarrow> cs | Some i \<Rightarrow> take i cs @ ''.so'')"
      using Cons by simp
    have occ: "first_occurrence ''.so'' (c # cs) = map_option Suc (first_occurrence ''.so'' cs)"
      using False by (simp only: first_occurrence_Cons if_False)
    show ?thesis
      by (cases "first_occurrence ''.so'' cs") (simp_all only: step ih occ option.case
          option.map take_Suc_Cons append_Cons)
  qed
qed

lemma match_upto_last_occurrence:
  "newline \<notin> set name \<Longrightarrow>
   match_upto_so_dot name = map_option (\<lambda>i. drop (i + 4) name) (last_occurrence ''.so.'' name)"
proof (induction name)
  case Nil
  then show ?case by (simp add: last_occurrence_Nil)
next
  case (Cons c cs)
  then have ih: "match_upto_so_dot cs =
      map_option (\<lambda>i. drop (i + 4) cs) (last_occurrence ''.so.'' cs)"
    and c: "c \<noteq> newline" by auto
  have step: "match_upto_so_dot (c # cs) =
      (case match_upto_so_dot cs of
         Some r \<Rightarrow> Some r
       | None \<Rightarrow> if prefix ''.so.'' (c # cs) then Some (drop 4 (c # cs)) else None)"
    using c by (simp only: match_upto_so_dot.simps not_False_eq_True if_True)
  show ?case
  proof (cases "last_occurrence ''.so.'' cs")
    case None
    then show ?thesis
      by (cases "prefix ''.so.'' (c # cs)")
         (simp_all only: step ih last_occurrence_Cons option.case option.map if_True if_False
            add_0)
  next
    case (Some i)
    then show ?thesis
      by (simp only: step ih last_occurrence_Cons option.case option.map add_Suc drop_Suc_Cons)
  qed
qed

lemma soversion_last_occurrence:
  "newline \<notin> set name \<Longrightarrow>
   soversion name = (case last_occurrence ''.so.'' name of None \<Rightarrow> name | Some i \<Rightarrow> drop (i + 4) name)"
proof -
  assume "newline \<notin> set name"
  then have m: "match_upto_so_dot name =
      map_option (\<lambda>i. drop (i + 4) name) (last_occurrence ''.so.'' name)"
    by (rule match_upto_last_occurrence)
  show ?thesis
    by (cases "last_occurrence ''.so.'' name")
       (simp_all only: soversion_def m option.case option.map)
qed


text \<open>
  C3, as amended. For every raw linkage name that contains no line feed, the soname is the
  name cut off behind its first occurrence of \<open>.so\<close> (the whole name when \<open>.so\<close> does not
  occur), and the version is what follows the last occurrence of \<open>.so.\<close> (the whole name
  when \<open>.so.\<close> does not occur). So \<open>libfoo.so.1.2.3\<close> gives soname \<open>libfoo.so\<close> and version
  \<open>1.2.3\<close>, and \<open>libfoo.so\<close> gives version \<open>libfoo.so\<close>.
\<close>

theorem library_key_derivation:
  assumes "newline \<notin> set name"
  shows "soname name =
           (case first_occurrence ''.so'' name of None \<Rightarrow> name | Some i \<Rightarrow> take i name @ ''.so'') \<and>
         soversion name =
           (case last_occurrence ''.so.'' name of None \<Rightarrow> name | Some i \<Rightarrow> drop (i + 4) name)"
  using assms soname_first_occurrence soversion_last_occurrence by blast

theorem library_key_derivation_witness:
  "newline \<notin> set ''libfoo.so.1.2.3'' \<and>
   first_occurrence ''.so'' ''libfoo.so.1.2.3'' = Some 6 \<and>
   last_occurrence ''.so.'' ''libfoo.so.1.2.3'' = Some 6 \<and>
   soname ''libfoo.so.1.2.3'' = ''libfoo.so'' \<and>
   soversion ''libfoo.so.1.2.3'' = ''1.2.3''"
proof -
  have nl: "newline \<notin> set ''libfoo.so.1.2.3''"
    by (simp add: newline_def)
  have f: "first_occurrence ''.so'' ''libfoo.so.1.2.3'' = Some 6"
    by (simp add: first_occurrence_Cons first_occurrence_Nil)
  have l: "last_occurrence ''.so.'' ''libfoo.so.1.2.3'' = Some 6"
    by (simp add: last_occurrence_Cons last_occurrence_Nil)
  show ?thesis
    using library_key_derivation [OF nl] nl f l by simp
qed

text \<open>
  The claim as stated fails twice: the version of \<open>libfoo.so\<close> is not empty, since the
  pattern of line 61 asks for \<open>.so.\<close> and leaves a name without it unchanged; and in a name
  with a line feed the match of \<open>.so.*\<close> ends at the end of the line, so that the text behind
  the first \<open>.so\<close> is not stripped to the end of the name.
\<close>

theorem library_key_counterexample:
  "soversion ''libfoo.so'' = ''libfoo.so'' \<and>
   soversion ''libfoo.so'' \<noteq> [] \<and>
   soname (''a.so.1'' @ [newline] @ ''b.so.2'') = ''a.so'' @ [newline] @ ''b.so'' \<and>
   soname (''a.so.1'' @ [newline] @ ''b.so.2'') \<noteq> ''a.so''"
  by (simp add: soversion_def newline_def)

section \<open>The resolver's loops\<close>

lemma match_key_foundlibs:
  "foundlibs (match_key rp deps pkg j k st) =
     (if lib_match j (actualpath rp deps k) then insert k (foundlibs st) else foundlibs st)"
  by (simp add: match_key_def Let_def)

lemma match_key_libdependlist:
  "map_of (libdependlist (match_key rp deps pkg j k st)) k' =
     (if k' = k \<and> lib_match j (actualpath rp deps k) \<and> k \<in> set (pkg_provides pkg)
      then Some (pkg_name pkg) else map_of (libdependlist st) k')"
  by (simp add: match_key_def Let_def update_conv')

lemma match_key_missing_provides:
  "map_of (missing_provides (match_key rp deps pkg j k st)) k' =
     (if k' = k \<and> lib_match j (actualpath rp deps k) \<and> k \<notin> set (pkg_provides pkg)
      then Some (pkg_name pkg) else map_of (missing_provides st) k')"
  by (simp add: match_key_def Let_def update_conv')

lemma fold_match_key_foundlibs:
  "foundlibs (fold (match_key rp deps pkg j) ks st) =
     foundlibs st \<union> {k \<in> set ks. lib_match j (actualpath rp deps k)}"
  by (induction ks arbitrary: st) (auto simp: match_key_foundlibs)

lemma fold_match_key_libdependlist:
  "map_of (libdependlist (fold (match_key rp deps pkg j) ks st)) k =
     (if k \<in> set ks \<and> lib_match j (actualpath rp deps k) \<and> k \<in> set (pkg_provides pkg)
      then Some (pkg_name pkg) else map_of (libdependlist st) k)"
  by (induction ks arbitrary: st) (auto simp: match_key_libdependlist)

lemma fold_match_key_missing_provides:
  "map_of (missing_provides (fold (match_key rp deps pkg j) ks st)) k =
     (if k \<in> set ks \<and> lib_match j (actualpath rp deps k) \<and> k \<notin> set (pkg_provides pkg)
      then Some (pkg_name pkg) else map_of (missing_provides st) k)"
  by (induction ks arbitrary: st) (auto simp: match_key_missing_provides)

lemma match_file_foundlibs:
  "foundlibs (match_file rp deps pkg f st) =
     foundlibs st \<union> {k \<in> set (knownlibs deps). file_matches rp deps k f}"
  by (cases f) (auto simp: match_file_def fold_match_key_foundlibs file_matches_def)

lemma match_file_libdependlist:
  "map_of (libdependlist (match_file rp deps pkg f st)) k =
     (if k \<in> set (knownlibs deps) \<and> file_matches rp deps k f \<and> k \<in> set (pkg_provides pkg)
      then Some (pkg_name pkg) else map_of (libdependlist st) k)"
  by (cases f) (simp add: match_file_def fold_match_key_libdependlist file_matches_def)

lemma match_file_missing_provides:
  "map_of (missing_provides (match_file rp deps pkg f st)) k =
     (if k \<in> set (knownlibs deps) \<and> file_matches rp deps k f \<and> k \<notin> set (pkg_provides pkg)
      then Some (pkg_name pkg) else map_of (missing_provides st) k)"
  by (cases f) (simp add: match_file_def fold_match_key_missing_provides file_matches_def)

lemma fold_match_file_foundlibs:
  "foundlibs (fold (match_file rp deps pkg) fs st) =
     foundlibs st \<union> {k \<in> set (knownlibs deps). list_ex (file_matches rp deps k) fs}"
  by (induction fs arbitrary: st) (auto simp: match_file_foundlibs)

lemma fold_match_file_libdependlist:
  "map_of (libdependlist (fold (match_file rp deps pkg) fs st)) k =
     (if k \<in> set (knownlibs deps) \<and> list_ex (file_matches rp deps k) fs \<and> k \<in> set (pkg_provides pkg)
      then Some (pkg_name pkg) else map_of (libdependlist st) k)"
  by (induction fs arbitrary: st) (auto simp: match_file_libdependlist)

lemma fold_match_file_missing_provides:
  "map_of (missing_provides (fold (match_file rp deps pkg) fs st)) k =
     (if k \<in> set (knownlibs deps) \<and> list_ex (file_matches rp deps k) fs \<and> k \<notin> set (pkg_provides pkg)
      then Some (pkg_name pkg) else map_of (missing_provides st) k)"
  by (induction fs arbitrary: st) (auto simp: match_file_missing_provides)

lemma pkg_matches_alt: "pkg_matches rp deps pkg k = list_ex (file_matches rp deps k) (pkg_files pkg)"
  by (simp add: pkg_matches_def)

lemma match_pkg_foundlibs:
  "foundlibs (match_pkg rp deps pkg st) =
     foundlibs st \<union> {k \<in> set (knownlibs deps). pkg_matches rp deps pkg k}"
  by (simp add: match_pkg_def fold_match_file_foundlibs pkg_matches_alt)

lemma match_pkg_libdependlist:
  "map_of (libdependlist (match_pkg rp deps pkg st)) k =
     (if k \<in> set (knownlibs deps) \<and> pkg_matches rp deps pkg k \<and> k \<in> set (pkg_provides pkg)
      then Some (pkg_name pkg) else map_of (libdependlist st) k)"
  by (simp add: match_pkg_def fold_match_file_libdependlist pkg_matches_alt)

lemma match_pkg_missing_provides:
  "map_of (missing_provides (match_pkg rp deps pkg st)) k =
     (if k \<in> set (knownlibs deps) \<and> pkg_matches rp deps pkg k \<and> k \<notin> set (pkg_provides pkg)
      then Some (pkg_name pkg) else map_of (missing_provides st) k)"
  by (simp add: match_pkg_def fold_match_file_missing_provides pkg_matches_alt)

lemma fold_match_pkg_foundlibs:
  "foundlibs (fold (match_pkg rp deps) ps st) =
     foundlibs st \<union> {k \<in> set (knownlibs deps). list_ex (\<lambda>p. pkg_matches rp deps p k) ps}"
  by (induction ps arbitrary: st) (auto simp: match_pkg_foundlibs)

lemma last_owner_snoc:
  "last_owner P (ps @ [q]) = (if P q then Some (pkg_name q) else last_owner P ps)"
  by (simp add: last_owner_def)

lemma fold_match_pkg_libdependlist:
  "map_of (libdependlist (fold (match_pkg rp deps) ps st)) k =
     (case last_owner (\<lambda>p. k \<in> set (knownlibs deps) \<and> pkg_matches rp deps p k \<and> k \<in> set (pkg_provides p)) ps of
        Some n \<Rightarrow> Some n | None \<Rightarrow> map_of (libdependlist st) k)"
  by (induction ps rule: rev_induct) (simp_all add: last_owner_def match_pkg_libdependlist)

lemma fold_match_pkg_missing_provides:
  "map_of (missing_provides (fold (match_pkg rp deps) ps st)) k =
     (case last_owner (\<lambda>p. k \<in> set (knownlibs deps) \<and> pkg_matches rp deps p k \<and> k \<notin> set (pkg_provides p)) ps of
        Some n \<Rightarrow> Some n | None \<Rightarrow> map_of (missing_provides st) k)"
  by (induction ps rule: rev_induct) (simp_all add: last_owner_def match_pkg_missing_provides)

section \<open>The scanner, tag by tag\<close>

lemma scan_tag_override:
  "custom_libs libname = Some p \<Longrightarrow>
   scan_tag cache abspath filename custom_libs bitsize (DT_NEEDED libname) st = Inr st"
  by (simp add: scan_tag_def)

lemma scan_tag_needed:
  "match_bitsize bitsize = Some a \<Longrightarrow> custom_libs libname = None \<Longrightarrow>
   scan_tag cache abspath filename custom_libs bitsize (DT_NEEDED libname) st =
     Inr (st\<lparr>libdepends :=
              AList.update (lib_key libname bitsize)
                (case cache a libname of Some p \<Rightarrow> drop 1 (abspath p) | None \<Rightarrow> libname)
                (libdepends st),
            liblist :=
              dd_add (case cache a libname of Some p \<Rightarrow> drop 1 (abspath p) | None \<Rightarrow> libname)
                filename (liblist st)\<rparr>)"
  by (simp add: scan_tag_def Let_def)

lemma scan_tag_soname:
  "scan_tag cache abspath filename custom_libs bitsize (DT_SONAME sn) st =
     Inr (if dirname filename \<in> set [''usr/lib'', ''usr/lib32'']
          then st\<lparr>libprovides := dd_add (lib_key sn bitsize) filename (libprovides st)\<rparr>
          else st)"
  by (simp add: scan_tag_def Let_def)

lemma scan_tag_other:
  "scan_tag cache abspath filename custom_libs bitsize DT_OTHER st = Inr st"
  by (simp add: scan_tag_def)

lemma scan_tag_total:
  "match_bitsize bitsize = Some a \<Longrightarrow>
   \<exists>st'. scan_tag cache abspath filename custom_libs bitsize t st = Inr st'"
proof (cases t)
  case (DT_NEEDED libname)
  assume a: "match_bitsize bitsize = Some a"
  show ?thesis
  proof (cases "custom_libs libname")
    case None
    with a DT_NEEDED show ?thesis by (simp add: scan_tag_needed)
  next
    case (Some p)
    with DT_NEEDED show ?thesis by (simp add: scan_tag_override)
  qed
qed (simp_all add: scan_tag_soname scan_tag_other)

lemma scan_tags_total:
  "match_bitsize bitsize = Some a \<Longrightarrow>
   \<exists>st'. scan_tags cache abspath filename custom_libs bitsize ts st = Inr st'"
proof (induction ts arbitrary: st)
  case Nil
  then show ?case by simp
next
  case (Cons t ts)
  from scan_tag_total [OF Cons.prems] obtain st1
    where "scan_tag cache abspath filename custom_libs bitsize t st = Inr st1" by blast
  with Cons show ?case by simp
qed

lemma scan_sections_total:
  "match_bitsize bitsize = Some a \<Longrightarrow>
   \<exists>st'. scan_sections cache abspath filename custom_libs bitsize secs st = Inr st'"
proof (induction secs arbitrary: st)
  case Nil
  then show ?case by simp
next
  case (Cons sec secs)
  show ?case
  proof (cases sec)
    case OtherSection
    with Cons show ?thesis by simp
  next
    case (DynamicSection ts)
    from scan_tags_total [OF Cons.prems] obtain st1
      where "scan_tags cache abspath filename custom_libs bitsize ts st = Inr st1" by blast
    with Cons DynamicSection show ?thesis by (simp split: sum.split)
  qed
qed

lemma scanlibs_total:
  "fileobj = None \<or> (\<exists>elf a. fileobj = Some elf \<and> match_bitsize (elfclass elf) = Some a) \<Longrightarrow>
   \<exists>st'. scanlibs cache abspath fileobj filename custom_libs st = Inr st'"
  by (auto simp: scanlibs_def scan_sections_total)

lemma scan_tag_cache_cong:
  "match_bitsize bitsize = Some a \<Longrightarrow> cache' a = cache a \<Longrightarrow>
   scan_tag cache' abspath filename custom_libs bitsize t st =
   scan_tag cache abspath filename custom_libs bitsize t st"
  by (cases t) (simp_all add: scan_tag_def Let_def split: option.split)

lemma scan_tags_cache_cong:
  "match_bitsize bitsize = Some a \<Longrightarrow> cache' a = cache a \<Longrightarrow>
   scan_tags cache' abspath filename custom_libs bitsize ts st =
   scan_tags cache abspath filename custom_libs bitsize ts st"
proof (induction ts arbitrary: st)
  case Nil
  then show ?case by simp
next
  case (Cons t ts)
  have "scan_tag cache' abspath filename custom_libs bitsize t st =
      scan_tag cache abspath filename custom_libs bitsize t st"
    using Cons.prems by (rule scan_tag_cache_cong)
  with Cons show ?case by (simp split: sum.split)
qed

lemma scan_sections_cache_cong:
  "match_bitsize bitsize = Some a \<Longrightarrow> cache' a = cache a \<Longrightarrow>
   scan_sections cache' abspath filename custom_libs bitsize secs st =
   scan_sections cache abspath filename custom_libs bitsize secs st"
proof (induction secs arbitrary: st)
  case Nil
  then show ?case by simp
next
  case (Cons sec secs)
  show ?case
  proof (cases sec)
    case OtherSection
    with Cons show ?thesis by simp
  next
    case (DynamicSection ts)
    have "scan_tags cache' abspath filename custom_libs bitsize ts st =
        scan_tags cache abspath filename custom_libs bitsize ts st"
      using Cons.prems by (rule scan_tags_cache_cong)
    with Cons DynamicSection show ?thesis by (simp split: sum.split)
  qed
qed

text \<open>
  C1. The claim: a needed library whose name is in the override map is resolved with the
  override path and recorded in \<open>libdepends\<close> and \<open>liblist\<close>. The code assigns \<open>libpath\<close>
  from the override map and then leaves the loop body with \<open>continue\<close>, before the two
  stores: for the 64-bit file \<open>usr/bin/app\<close> that needs \<open>libfoo.so.1\<close>, with the override
  \<open>libfoo.so.1\<close> to \<open>/usr/lib/app/libfoo.so.1\<close>, nothing is recorded.
\<close>

theorem override_not_recorded:
  "scanlibs cache abspath
     (Some \<lparr>elfclass = 64, sections = [DynamicSection [DT_NEEDED ''libfoo.so.1'']]\<rparr>)
     ''usr/bin/app'' [''libfoo.so.1'' \<mapsto> ''/usr/lib/app/libfoo.so.1'']
     \<lparr>liblist = [], libdepends = [], libprovides = []\<rparr> =
   Inr \<lparr>liblist = [], libdepends = [], libprovides = []\<rparr>"
  by (simp add: scanlibs_def scan_tag_def)

text \<open>
  C5. Under the precondition that the word size is 32 or 64, the architecture assignment is
  total: the label is \<open>i686\<close> for 32 and \<open>x86-64\<close> for 64, every tag is processed
  without an error, the scan of the whole file returns without an error, so the branch
  without a label is not reached, and a needed-library tag without an override entry is
  resolved in the cache of that label. A label is assigned for these two word sizes only.
\<close>

theorem architecture_assignment:
  "(bitsize = 32 \<or> bitsize = 64 \<longrightarrow>
      match_bitsize bitsize = Some (if bitsize = 32 then I686 else X86_64) \<and>
      (\<exists>st'. scan_tag cache abspath filename custom_libs bitsize t st = Inr st') \<and>
      (\<exists>st'. scanlibs cache abspath (Some \<lparr>elfclass = bitsize, sections = secs\<rparr>) filename
               custom_libs st = Inr st') \<and>
      (custom_libs libname = None \<longrightarrow>
         scan_tag cache abspath filename custom_libs bitsize (DT_NEEDED libname) st =
           Inr (st\<lparr>libdepends :=
                    AList.update (lib_key libname bitsize)
                      (case cache (if bitsize = 32 then I686 else X86_64) libname of
                         Some p \<Rightarrow> drop 1 (abspath p) | None \<Rightarrow> libname)
                      (libdepends st),
                  liblist :=
                    dd_add (case cache (if bitsize = 32 then I686 else X86_64) libname of
                              Some p \<Rightarrow> drop 1 (abspath p) | None \<Rightarrow> libname)
                      filename (liblist st)\<rparr>))) \<and>
   (match_bitsize bitsize = Some a \<longrightarrow>
      (bitsize = 32 \<and> a = I686) \<or> (bitsize = 64 \<and> a = X86_64))"
proof -
  have m: "match_bitsize bitsize = Some (if bitsize = 32 then I686 else X86_64)"
    if "bitsize = 32 \<or> bitsize = 64"
    using that by (auto simp: match_bitsize_def)
  have t: "\<exists>st'. scan_tag cache abspath filename custom_libs bitsize t st = Inr st'"
    if "bitsize = 32 \<or> bitsize = 64"
    using scan_tag_total [OF m [OF that]] .
  have s: "\<exists>st'. scanlibs cache abspath (Some \<lparr>elfclass = bitsize, sections = secs\<rparr>) filename
               custom_libs st = Inr st'"
    if "bitsize = 32 \<or> bitsize = 64"
    using m [OF that] by (intro scanlibs_total) auto
  have n: "scan_tag cache abspath filename custom_libs bitsize (DT_NEEDED libname) st =
           Inr (st\<lparr>libdepends :=
                    AList.update (lib_key libname bitsize)
                      (case cache (if bitsize = 32 then I686 else X86_64) libname of
                         Some p \<Rightarrow> drop 1 (abspath p) | None \<Rightarrow> libname)
                      (libdepends st),
                  liblist :=
                    dd_add (case cache (if bitsize = 32 then I686 else X86_64) libname of
                              Some p \<Rightarrow> drop 1 (abspath p) | None \<Rightarrow> libname)
                      filename (liblist st)\<rparr>)"
    if "bitsize = 32 \<or> bitsize = 64" "custom_libs libname = None"
    using scan_tag_needed [where custom_libs = custom_libs and libname = libname,
        OF m [OF that(1)] that(2)] .
  have l: "(bitsize = 32 \<and> a = I686) \<or> (bitsize = 64 \<and> a = X86_64)"
    if "match_bitsize bitsize = Some a"
    using that by (auto simp: match_bitsize_def split: if_splits)
  from m t s n l show ?thesis by blast
qed

theorem architecture_assignment_witness:
  "match_bitsize 32 = Some I686 \<and> match_bitsize 64 = Some X86_64 \<and>
   scanlibs ((\<lambda>a. Map.empty)(X86_64 := [''libc.so.6'' \<mapsto> ''/usr/lib/libc.so.6'']))
     (\<lambda>p. p)
     (Some \<lparr>elfclass = 64, sections = [DynamicSection [DT_NEEDED ''libc.so.6'']]\<rparr>)
     ''usr/bin/app'' Map.empty \<lparr>liblist = [], libdepends = [], libprovides = []\<rparr> =
   Inr \<lparr>liblist = [(''usr/lib/libc.so.6'', {''usr/bin/app''})],
        libdepends = [(''libc.so=6-64'', ''usr/lib/libc.so.6'')], libprovides = []\<rparr> \<and>
   scanlibs ((\<lambda>a. Map.empty)(I686 := [''libc.so.6'' \<mapsto> ''/usr/lib32/libc.so.6'']))
     (\<lambda>p. p)
     (Some \<lparr>elfclass = 32, sections = [DynamicSection [DT_NEEDED ''libc.so.6'']]\<rparr>)
     ''usr/bin/app'' Map.empty \<lparr>liblist = [], libdepends = [], libprovides = []\<rparr> =
   Inr \<lparr>liblist = [(''usr/lib32/libc.so.6'', {''usr/bin/app''})],
        libdepends = [(''libc.so=6-32'', ''usr/lib32/libc.so.6'')], libprovides = []\<rparr>"
  using architecture_assignment [where bitsize = 64
      and cache = "(\<lambda>a. Map.empty)(X86_64 := [''libc.so.6'' \<mapsto> ''/usr/lib/libc.so.6''])"
      and abspath = "\<lambda>p. p" and secs = "[DynamicSection [DT_NEEDED ''libc.so.6'']]"
      and filename = "''usr/bin/app''" and custom_libs = Map.empty
      and st = "\<lparr>liblist = [], libdepends = [], libprovides = []\<rparr>"
      and libname = "''libc.so.6''" and t = "DT_NEEDED ''libc.so.6''" and a = X86_64]
    architecture_assignment [where bitsize = 32
      and cache = "(\<lambda>a. Map.empty)(I686 := [''libc.so.6'' \<mapsto> ''/usr/lib32/libc.so.6''])"
      and abspath = "\<lambda>p. p" and secs = "[DynamicSection [DT_NEEDED ''libc.so.6'']]"
      and filename = "''usr/bin/app''" and custom_libs = Map.empty
      and st = "\<lparr>liblist = [], libdepends = [], libprovides = []\<rparr>"
      and libname = "''libc.so.6''" and t = "DT_NEEDED ''libc.so.6''" and a = I686]
  by (simp add: scanlibs_def match_bitsize_def lib_key_def soversion_def str_int_def
      digits_of_nat.simps newline_def dd_add_def dd_set_def Let_def)

text \<open>
  C6. The scan of a 64-bit file does not depend on the \<open>i686\<close> cache, and the scan of a
  32-bit file does not depend on the \<open>x86-64\<close> cache: replacing the other cache by any
  dictionary \<open>c\<close> leaves the result unchanged.
\<close>

theorem cache_lookup_by_word_size:
  "scanlibs (cache(I686 := c)) abspath (Some \<lparr>elfclass = 64, sections = secs\<rparr>) filename
     custom_libs st =
   scanlibs cache abspath (Some \<lparr>elfclass = 64, sections = secs\<rparr>) filename custom_libs st \<and>
   scanlibs (cache(X86_64 := c)) abspath (Some \<lparr>elfclass = 32, sections = secs\<rparr>) filename
     custom_libs st =
   scanlibs cache abspath (Some \<lparr>elfclass = 32, sections = secs\<rparr>) filename custom_libs st"
proof -
  have "match_bitsize 64 = Some X86_64" "match_bitsize 32 = Some I686"
    by (simp_all add: match_bitsize_def)
  then show ?thesis
    unfolding scanlibs_def option.case elffile.simps
    by (intro conjI scan_sections_cache_cong [where a = X86_64]
        scan_sections_cache_cong [where a = I686]) simp_all
qed

theorem cache_lookup_by_word_size_witness:
  "scanlibs ((\<lambda>a. Map.empty)(I686 := [''libssl.so.3'' \<mapsto> ''/usr/lib32/libssl.so.3''],
                             X86_64 := [''libssl.so.3'' \<mapsto> ''/usr/lib/libssl.so.3'']))
     (\<lambda>p. p) (Some \<lparr>elfclass = 64, sections = [DynamicSection [DT_NEEDED ''libssl.so.3'']]\<rparr>)
     ''usr/bin/app'' Map.empty \<lparr>liblist = [], libdepends = [], libprovides = []\<rparr> =
   Inr \<lparr>liblist = [(''usr/lib/libssl.so.3'', {''usr/bin/app''})],
        libdepends = [(''libssl.so=3-64'', ''usr/lib/libssl.so.3'')], libprovides = []\<rparr>"
  using cache_lookup_by_word_size [of "(\<lambda>a. Map.empty)(X86_64 := [''libssl.so.3'' \<mapsto> ''/usr/lib/libssl.so.3''])"
      "[''libssl.so.3'' \<mapsto> ''/usr/lib32/libssl.so.3'']" "\<lambda>p. p"
      "[DynamicSection [DT_NEEDED ''libssl.so.3'']]" "''usr/bin/app''" Map.empty
      "\<lparr>liblist = [], libdepends = [], libprovides = []\<rparr>"]
  by (simp add: scanlibs_def scan_tag_def match_bitsize_def lib_key_def soversion_def str_int_def
      digits_of_nat.simps newline_def dd_add_def dd_set_def Let_def fun_upd_twist)










section \<open>The match rule\<close>

lemma so_end_match_always: "\<exists>n. so_end_match s = Some n"
proof (induction s rule: so_end_match.induct)
  case (1 s)
  have unfold: "so_end_match s =
      (if s \<noteq> [] \<and> hd s = CHR ''.'' \<and> takeWhile is_digit (tl s) \<noteq> []
       then map_option (\<lambda>n. 1 + length (takeWhile is_digit (tl s)) + n)
              (so_end_match (dropWhile is_digit (tl s)))
       else Some 0)"
    by (rule so_end_match.simps)
  show ?case
  proof (cases "s \<noteq> [] \<and> hd s = CHR ''.'' \<and> takeWhile is_digit (tl s) \<noteq> []")
    case True
    with 1 obtain n where "so_end_match (dropWhile is_digit (tl s)) = Some n" by blast
    with True unfold show ?thesis by simp
  next
    case False
    with unfold show ?thesis by simp
  qed
qed

lemma lib_match_prefix: "lib_match j path = prefix path j"
proof -
  obtain n where "so_end_match (drop (length path) j) = Some n"
    using so_end_match_always by blast
  then show ?thesis
    by (auto simp: lib_match_def startswith_def truthy_def)
qed

text \<open>
  C2. The claim: a file counts for a required path only if it equals the path, or starts
  with it and goes on with dot-separated numeric segments up to its end, so that
  \<open>usr/lib/libgpm.so.1abc\<close> does not count for \<open>usr/lib/libgpm.so.1\<close>. The comment of lines
  108 to 110 says the same. The pattern of line 98 has no end anchor and matches the empty
  string, so \<open>so_end.match\<close> never returns \<open>None\<close> and every file that starts with the path
  counts: the resolver finds \<open>libgpm.so=1-64\<close> in the package whose only file is
  \<open>usr/lib/libgpm.so.1abc\<close>, and no orphan is left.
\<close>

theorem nonnumeric_suffix_matches:
  "lib_match ''usr/lib/libgpm.so.1abc'' ''usr/lib/libgpm.so.1'' \<and>
   so_end_match ''abc'' = Some 0 \<and>
   finddepends (\<lambda>p. p)
     [\<lparr>pkg_name = ''gpm'', pkg_files = [(''usr/lib/libgpm.so.1abc'', 0, 0)], pkg_provides = []\<rparr>]
     [(''libgpm.so=1-64'', ''usr/lib/libgpm.so.1'')] =
   ([(''gpm'', {''usr/lib/libgpm.so.1''})], [], [], [(''libgpm.so=1-64'', ''gpm'')])"
  by (simp add: lib_match_prefix so_end_match.simps finddepends_def match_all_def match_pkg_def
      match_file_def match_key_def knownlibs_def actualpath_def dd_str_def dd_add_def dd_set_def
      is_so_search_def Let_def)

section \<open>Owners and orphans\<close>

lemma set_knownlibs: "set (knownlibs deps) = fst ` set deps"
  by (simp add: knownlibs_def)

lemma distinct_knownlibs: "distinct (knownlibs deps)"
  by (simp add: knownlibs_def)

lemma match_all_libdependlist:
  "map_of (libdependlist (match_all rp installed deps)) k =
     last_owner (\<lambda>p. k \<in> set (knownlibs deps) \<and> pkg_matches rp deps p k \<and>
                     k \<in> set (pkg_provides p)) installed"
  by (simp add: match_all_def fold_match_pkg_libdependlist split: option.split)

lemma match_all_missing_provides:
  "map_of (missing_provides (match_all rp installed deps)) k =
     last_owner (\<lambda>p. k \<in> set (knownlibs deps) \<and> pkg_matches rp deps p k \<and>
                     k \<notin> set (pkg_provides p)) installed"
  by (simp add: match_all_def fold_match_pkg_missing_provides split: option.split)

lemma match_all_foundlibs:
  "foundlibs (match_all rp installed deps) =
     {k \<in> set (knownlibs deps). list_ex (\<lambda>p. pkg_matches rp deps p k) installed}"
  by (simp add: match_all_def fold_match_pkg_foundlibs)

text \<open>
  C4, as amended. The resolver has no test for keys that are already found, so every match
  overwrites the entry of the key: in the owner map when the matching package declares the
  key, in the missing-provides map when it does not. For every key, the owner map holds the
  last package of the enumeration that matches the key and declares it, and the
  missing-provides map holds the last package that matches the key and does not declare
  it; a key without such a package has no entry.
\<close>

theorem last_match_is_recorded:
  "(case finddepends realpath installed deps of
      (dl, ldl, orphans, mp) \<Rightarrow>
        map_of ldl k =
          last_owner (\<lambda>p. k \<in> set (knownlibs deps) \<and> pkg_matches realpath deps p k \<and>
                          k \<in> set (pkg_provides p)) installed \<and>
        map_of mp k =
          last_owner (\<lambda>p. k \<in> set (knownlibs deps) \<and> pkg_matches realpath deps p k \<and>
                          k \<notin> set (pkg_provides p)) installed)"
  by (simp add: finddepends_def Let_def match_all_libdependlist match_all_missing_provides)

theorem last_match_is_recorded_witness:
  "(case finddepends (\<lambda>p. p)
      [\<lparr>pkg_name = ''first'', pkg_files = [(''usr/lib/libfoo.so.2.0.1'', 0, 0)],
        pkg_provides = [''libfoo.so=2-64'']\<rparr>,
       \<lparr>pkg_name = ''second'', pkg_files = [(''usr/lib/libfoo.so.2.0.2'', 0, 0)],
        pkg_provides = [''libfoo.so=2-64'']\<rparr>,
       \<lparr>pkg_name = ''third'', pkg_files = [(''usr/lib/libfoo.so.2.0.3'', 0, 0)],
        pkg_provides = []\<rparr>]
      [(''libfoo.so=2-64'', ''usr/lib/libfoo.so.2'')] of
      (dl, ldl, orphans, mp) \<Rightarrow>
        map_of ldl ''libfoo.so=2-64'' = Some ''second'' \<and>
        map_of mp ''libfoo.so=2-64'' = Some ''third'')"
  using last_match_is_recorded [where realpath = "\<lambda>p. p" and installed =
      "[\<lparr>pkg_name = ''first'', pkg_files = [(''usr/lib/libfoo.so.2.0.1'', 0, 0)],
        pkg_provides = [''libfoo.so=2-64'']\<rparr>,
       \<lparr>pkg_name = ''second'', pkg_files = [(''usr/lib/libfoo.so.2.0.2'', 0, 0)],
        pkg_provides = [''libfoo.so=2-64'']\<rparr>,
       \<lparr>pkg_name = ''third'', pkg_files = [(''usr/lib/libfoo.so.2.0.3'', 0, 0)],
        pkg_provides = []\<rparr>]"
      and deps = "[(''libfoo.so=2-64'', ''usr/lib/libfoo.so.2'')]" and k = "''libfoo.so=2-64''"]
  by (simp add: last_owner_def pkg_matches_def file_matches_def knownlibs_def actualpath_def
      dd_str_def is_so_search_def lib_match_prefix split: prod.splits)

text \<open>
  The claim as stated fails: with two packages that both match the key and both declare
  it, the owner that is recorded is the second package, not the first.
\<close>

theorem first_match_counterexample:
  "finddepends (\<lambda>p. p)
     [\<lparr>pkg_name = ''first'', pkg_files = [(''usr/lib/libfoo.so.2.0.1'', 0, 0)],
       pkg_provides = [''libfoo.so=2-64'']\<rparr>,
      \<lparr>pkg_name = ''second'', pkg_files = [(''usr/lib/libfoo.so.2.0.2'', 0, 0)],
       pkg_provides = [''libfoo.so=2-64'']\<rparr>]
     [(''libfoo.so=2-64'', ''usr/lib/libfoo.so.2'')] =
   ([(''first'', {''usr/lib/libfoo.so.2''}), (''second'', {''usr/lib/libfoo.so.2''})],
    [(''libfoo.so=2-64'', ''second'')], [], [])"
  by (simp add: lib_match_prefix finddepends_def match_all_def match_pkg_def
      match_file_def match_key_def knownlibs_def actualpath_def dd_str_def dd_add_def dd_set_def
      is_so_search_def Let_def)

lemma orphans_set:
  "(case finddepends realpath installed deps of
      (dl, ldl, orphans, mp) \<Rightarrow>
        distinct orphans \<and>
        set orphans = {k \<in> fst ` set deps. \<not> list_ex (\<lambda>p. pkg_matches realpath deps p k) installed})"
  by (auto simp: finddepends_def Let_def match_all_foundlibs distinct_knownlibs set_knownlibs)

lemma filter_orphan_warnings:
  "filter (\<lambda>d. fst d = ''library-no-package-associated %s %s'') (orphan_warnings st orphans) =
     orphan_warnings st orphans"
  by (simp add: orphan_warnings_def filter_map o_def)

lemma filter_depends_warnings:
  "filter (\<lambda>d. fst d = ''library-no-package-associated %s %s'') (depends_warnings depends ldl) = []"
  by (simp add: depends_warnings_def filter_map o_def)

lemma filter_provides_warnings:
  "filter (\<lambda>d. fst d = ''library-no-package-associated %s %s'') (provides_warnings provides lp) = []"
  by (simp add: provides_warnings_def filter_map o_def)

lemma filter_testing_warnings:
  "filter (\<lambda>d. fst d = ''library-no-package-associated %s %s'') (testing_warnings lt ldb dl) = []"
  by (simp add: testing_warnings_def filter_map o_def)

text \<open>
  C7. The orphan list holds no key twice, and a key is in it exactly when it is a key of
  \<open>libdepends\<close> and no file of an installed package matches it. The warnings with the
  template \<open>library-no-package-associated\<close> are, in the order of the orphan list, one for
  each orphan, with the path that \<open>libdepends\<close> records for the key and the files that
  \<open>liblist\<close> records for that path.
\<close>

theorem orphans_and_warnings:
  "(case finddepends realpath installed (libdepends st) of
      (dl, ldl, orphans, mp) \<Rightarrow>
        distinct orphans \<and>
        (k \<in> set orphans \<longleftrightarrow>
           k \<in> fst ` set (libdepends st) \<and>
           \<not> list_ex (\<lambda>p. pkg_matches realpath (libdepends st) p k) installed) \<and>
        filter (\<lambda>d. fst d = ''library-no-package-associated %s %s'')
          (warnings (report_libs realpath installed load_testing_package load_from_db pkginfo st)) =
        map (\<lambda>i. (''library-no-package-associated %s %s'',
                  [Str (dd_str (libdepends st) i),
                   Files (dd_set (liblist st) (dd_str (libdepends st) i))])) orphans)"
proof -
  obtain dl ldl orphans mp
    where fd: "finddepends realpath installed (libdepends st) = (dl, ldl, orphans, mp)"
    by (cases "finddepends realpath installed (libdepends st)") auto
  from orphans_set [where realpath = realpath and installed = installed and deps = "libdepends st"] fd
  have o: "distinct orphans"
    "set orphans = {k \<in> fst ` set (libdepends st).
        \<not> list_ex (\<lambda>p. pkg_matches realpath (libdepends st) p k) installed}"
    by simp_all
  have w: "filter (\<lambda>d. fst d = ''library-no-package-associated %s %s'')
      (warnings (report_libs realpath installed load_testing_package load_from_db pkginfo st)) =
      orphan_warnings st orphans"
    by (simp add: report_libs_def fd Let_def filter_orphan_warnings filter_depends_warnings
        filter_provides_warnings filter_testing_warnings)
  show ?thesis
    using o w by (simp add: fd orphan_warnings_def requesters_def)
qed

theorem orphans_and_warnings_witness:
  "finddepends (\<lambda>p. p)
     [\<lparr>pkg_name = ''foo'', pkg_files = [(''usr/lib/libfoo.so.2.0.1'', 0, 0)], pkg_provides = []\<rparr>]
     [(''libbar.so=5-64'', ''libbar.so.5'')] = ([], [], [''libbar.so=5-64''], []) \<and>
   filter (\<lambda>d. fst d = ''library-no-package-associated %s %s'')
     (warnings (report_libs (\<lambda>p. p)
        [\<lparr>pkg_name = ''foo'', pkg_files = [(''usr/lib/libfoo.so.2.0.1'', 0, 0)], pkg_provides = []\<rparr>]
        (\<lambda>n. None) (\<lambda>n. None)
        \<lparr>pi_name = ''app'', pi_depends = [], pi_optdepends = [], pi_provides = [],
          detected_deps = []\<rparr>
        \<lparr>liblist = [(''libbar.so.5'', {''usr/bin/app''})],
          libdepends = [(''libbar.so=5-64'', ''libbar.so.5'')], libprovides = []\<rparr>)) =
   [(''library-no-package-associated %s %s'', [Str ''libbar.so.5'', Files {''usr/bin/app''}])]"
proof -
  have fd: "finddepends (\<lambda>p. p)
     [\<lparr>pkg_name = ''foo'', pkg_files = [(''usr/lib/libfoo.so.2.0.1'', 0, 0)], pkg_provides = []\<rparr>]
     [(''libbar.so=5-64'', ''libbar.so.5'')] = ([], [], [''libbar.so=5-64''], [])"
    by (simp add: lib_match_prefix finddepends_def match_all_def match_pkg_def
      match_file_def match_key_def knownlibs_def actualpath_def dd_str_def dd_add_def dd_set_def
      is_so_search_def Let_def)
  show ?thesis
    using orphans_and_warnings [where realpath = "\<lambda>p. p" and installed =
        "[\<lparr>pkg_name = ''foo'', pkg_files = [(''usr/lib/libfoo.so.2.0.1'', 0, 0)], pkg_provides = []\<rparr>]"
        and st = "\<lparr>liblist = [(''libbar.so.5'', {''usr/bin/app''})],
          libdepends = [(''libbar.so=5-64'', ''libbar.so.5'')], libprovides = []\<rparr>"
        and load_testing_package = "\<lambda>n. None" and load_from_db = "\<lambda>n. None"
        and pkginfo = "\<lparr>pi_name = ''app'', pi_depends = [], pi_optdepends = [], pi_provides = [],
          detected_deps = []\<rparr>" and k = "''libbar.so=5-64''"] fd
    by (simp add: dd_str_def dd_set_def)
qed

section \<open>Declarations without a version\<close>

lemma count_list_filter_if:
  "count_list (filter P xs) x = (if P x then count_list xs x else 0)"
  by (induction xs) auto

lemma count_depends_errors:
  "count_list (depends_errors depends) (''libdepends-without-version %s'', [Str i]) =
     (if endswith i ''.so'' then count_list depends i else 0)"
proof -
  have "inj (\<lambda>i. (''libdepends-without-version %s'', [Str i]))"
    by (rule injI) simp
  from count_list_map_conv [OF this, of "filter (\<lambda>i. endswith i ''.so'') depends" i]
  show ?thesis
    by (simp add: depends_errors_def count_list_filter_if)
qed

lemma count_provides_errors:
  "count_list (provides_errors provides) (''libprovides-without-version %s'', [Str i]) =
     (if endswith i ''.so'' then count_list provides i else 0)"
proof -
  have "inj (\<lambda>i. (''libprovides-without-version %s'', [Str i]))"
    by (rule injI) simp
  from count_list_map_conv [OF this, of "filter (\<lambda>i. endswith i ''.so'') provides" i]
  show ?thesis
    by (simp add: provides_errors_def count_list_filter_if)
qed

lemma count_depends_errors_other:
  "count_list (depends_errors depends) (''libprovides-without-version %s'', args) = 0"
  by (auto simp: depends_errors_def count_list_0_iff)

lemma count_provides_errors_other:
  "count_list (provides_errors provides) (''libdepends-without-version %s'', args) = 0"
  by (auto simp: provides_errors_def count_list_0_iff)

text \<open>
  C8. The error \<open>libdepends-without-version\<close> for an entry \<open>i\<close> is emitted as often as \<open>i\<close>
  stands in the declared depends, if \<open>i\<close> ends in \<open>.so\<close>, and never otherwise; the same holds
  for \<open>libprovides-without-version\<close> and the declared provides; and there are no other
  errors. Neither count depends on the scanned libraries or on the installed packages.
\<close>

theorem versionless_declarations:
  "count_list (errors (report_libs realpath installed load_testing_package load_from_db pkginfo st))
     (''libdepends-without-version %s'', [Str i]) =
     (if endswith i ''.so'' then count_list (pi_depends pkginfo) i else 0) \<and>
   count_list (errors (report_libs realpath installed load_testing_package load_from_db pkginfo st))
     (''libprovides-without-version %s'', [Str i]) =
     (if endswith i ''.so'' then count_list (pi_provides pkginfo) i else 0) \<and>
   length (errors (report_libs realpath installed load_testing_package load_from_db pkginfo st)) =
     length (filter (\<lambda>i. endswith i ''.so'') (pi_depends pkginfo)) +
     length (filter (\<lambda>i. endswith i ''.so'') (pi_provides pkginfo))"
proof -
  have e: "errors (report_libs realpath installed load_testing_package load_from_db pkginfo st) =
      depends_errors (pi_depends pkginfo) @ provides_errors (pi_provides pkginfo)"
    by (simp add: report_libs_def Let_def split: prod.split)
  show ?thesis
    unfolding e
    by (simp add: count_depends_errors count_provides_errors count_depends_errors_other
        count_provides_errors_other)
       (simp add: depends_errors_def provides_errors_def)
qed

theorem versionless_declarations_witness:
  "errors (report_libs (\<lambda>p. p) [] (\<lambda>n. None) (\<lambda>n. None)
      \<lparr>pi_name = ''app'', pi_depends = [''glibc'', ''libbar.so''], pi_optdepends = [],
        pi_provides = [''libfoo.so'', ''libfoo.so=1-64''], detected_deps = []\<rparr>
      \<lparr>liblist = [], libdepends = [],
        libprovides = [(''libfoo.so=1-64'', {''usr/lib/libfoo.so.1''})]\<rparr>) =
   [(''libdepends-without-version %s'', [Str ''libbar.so'']),
    (''libprovides-without-version %s'', [Str ''libfoo.so''])] \<and>
   count_list (errors (report_libs (\<lambda>p. p) [] (\<lambda>n. None) (\<lambda>n. None)
      \<lparr>pi_name = ''app'', pi_depends = [''glibc'', ''libbar.so''], pi_optdepends = [],
        pi_provides = [''libfoo.so'', ''libfoo.so=1-64''], detected_deps = []\<rparr>
      \<lparr>liblist = [], libdepends = [],
        libprovides = [(''libfoo.so=1-64'', {''usr/lib/libfoo.so.1''})]\<rparr>))
     (''libprovides-without-version %s'', [Str ''libfoo.so'']) = 1"
  using versionless_declarations [where realpath = "\<lambda>p. p" and installed = "[]"
      and load_testing_package = "\<lambda>n. None" and load_from_db = "\<lambda>n. None"
      and pkginfo = "\<lparr>pi_name = ''app'', pi_depends = [''glibc'', ''libbar.so''], pi_optdepends = [],
        pi_provides = [''libfoo.so'', ''libfoo.so=1-64''], detected_deps = []\<rparr>"
      and st = "\<lparr>liblist = [], libdepends = [],
        libprovides = [(''libfoo.so=1-64'', {''usr/lib/libfoo.so.1''})]\<rparr>"
      and i = "''libfoo.so''"]
  by (simp add: report_libs_def finddepends_def match_all_def knownlibs_def Let_def
      depends_errors_def provides_errors_def endswith_def suffix_to_prefix)

section \<open>Internal dependencies\<close>

lemma match_key_distinct:
  "distinct (map fst (libdependlist st)) \<and> distinct (map fst (missing_provides st)) \<Longrightarrow>
   distinct (map fst (libdependlist (match_key rp deps pkg j k st))) \<and>
   distinct (map fst (missing_provides (match_key rp deps pkg j k st)))"
  by (simp add: match_key_def Let_def distinct_update)

lemma fold_match_key_distinct:
  "distinct (map fst (libdependlist st)) \<and> distinct (map fst (missing_provides st)) \<Longrightarrow>
   distinct (map fst (libdependlist (fold (match_key rp deps pkg j) ks st))) \<and>
   distinct (map fst (missing_provides (fold (match_key rp deps pkg j) ks st)))"
proof (induction ks arbitrary: st)
  case Nil
  then show ?case by simp
next
  case (Cons k ks)
  from match_key_distinct [OF Cons.prems] Cons.IH show ?case by simp
qed

lemma match_file_distinct:
  "distinct (map fst (libdependlist st)) \<and> distinct (map fst (missing_provides st)) \<Longrightarrow>
   distinct (map fst (libdependlist (match_file rp deps pkg f st))) \<and>
   distinct (map fst (missing_provides (match_file rp deps pkg f st)))"
  by (cases f) (simp add: match_file_def fold_match_key_distinct)

lemma fold_match_file_distinct:
  "distinct (map fst (libdependlist st)) \<and> distinct (map fst (missing_provides st)) \<Longrightarrow>
   distinct (map fst (libdependlist (fold (match_file rp deps pkg) fs st))) \<and>
   distinct (map fst (missing_provides (fold (match_file rp deps pkg) fs st)))"
proof (induction fs arbitrary: st)
  case Nil
  then show ?case by simp
next
  case (Cons f fs)
  from match_file_distinct [OF Cons.prems] Cons.IH show ?case by simp
qed

lemma match_pkg_distinct:
  "distinct (map fst (libdependlist st)) \<and> distinct (map fst (missing_provides st)) \<Longrightarrow>
   distinct (map fst (libdependlist (match_pkg rp deps pkg st))) \<and>
   distinct (map fst (missing_provides (match_pkg rp deps pkg st)))"
  by (simp add: match_pkg_def fold_match_file_distinct)

lemma match_all_distinct:
  "distinct (map fst (libdependlist (match_all rp installed deps))) \<and>
   distinct (map fst (missing_provides (match_all rp installed deps)))"
proof -
  have "\<And>st. distinct (map fst (libdependlist st)) \<and> distinct (map fst (missing_provides st)) \<Longrightarrow>
     distinct (map fst (libdependlist (fold (match_pkg rp deps) installed st))) \<and>
     distinct (map fst (missing_provides (fold (match_pkg rp deps) installed st)))"
  proof (induction installed)
    case Nil
    then show ?case by simp
  next
    case (Cons p ps)
    from match_pkg_distinct [OF Cons.prems] Cons.IH show ?case by simp
  qed
  then show ?thesis by (simp add: match_all_def)
qed

lemma filter_internal_removes:
  "distinct (map fst d) \<Longrightarrow> map_of d k = Some name \<Longrightarrow> k \<notin> fst ` set (filter_internal name d)"
proof
  assume d: "distinct (map fst d)" and m: "map_of d k = Some name"
    and "k \<in> fst ` set (filter_internal name d)"
  then obtain v where "(k, v) \<in> set d" "v \<noteq> name"
    by (auto simp: filter_internal_def)
  with d have "map_of d k = Some v" by simp
  with m \<open>v \<noteq> name\<close> show False by simp
qed

lemma filter_internal_owner: "(k, owner) \<in> set (filter_internal name d) \<Longrightarrow> owner \<noteq> name"
  by (auto simp: filter_internal_def)


lemma infos_detected:
  "t \<in> set detected_templates \<Longrightarrow>
   (t, [Str k, Str owner, r]) \<in>
     set (infos (report_libs realpath installed load_testing_package load_from_db pkginfo st)) \<Longrightarrow>
   (k, owner) \<in> set (filter_internal (pi_name pkginfo)
      (fst (snd (finddepends realpath installed (libdepends st)))))"
  by (auto simp: report_libs_def Let_def detected_templates_def missing_provides_infos_def
      link_level_infos_def soname_info_def provides_infos_def
      split: prod.splits if_splits)

lemma infos_missing:
  "(''libdepends-missing-provides %s %s (%s)'', [Str k, Str owner, r]) \<in>
     set (infos (report_libs realpath installed load_testing_package load_from_db pkginfo st)) \<Longrightarrow>
   (k, owner) \<in> set (filter_internal (pi_name pkginfo)
      (snd (snd (snd (finddepends realpath installed (libdepends st))))))"
  by (auto simp: report_libs_def Let_def missing_provides_infos_def
      link_level_infos_def soname_info_def provides_infos_def
      split: prod.splits if_splits)

text \<open>
  C10, as amended. The diagnostics are built from the two filtered maps. A key whose owner
  in the owner map is the analyzed package is not a key of the filtered owner map, and none of the
  three diagnostics for a satisfied key is emitted for it; a key whose owner in the
  missing-provides map is the analyzed package is not a key of the filtered
  missing-provides map, and no \<open>libdepends-missing-provides\<close> diagnostic is emitted for it;
  and none of these four diagnostics ever names the analyzed package as the owner. In
  particular a key of the two maps that has no recorded owner but the analyzed package is
  a key of neither filtered map, and none of the four diagnostics is emitted for it.
\<close>

theorem internal_dependencies_filtered:
  "(case finddepends realpath installed (libdepends st) of
      (dl, ldl0, orphans, mp0) \<Rightarrow>
        (map_of ldl0 k = Some (pi_name pkginfo) \<longrightarrow>
           k \<notin> fst ` set (filter_internal (pi_name pkginfo) ldl0) \<and>
           (\<forall>t\<in>set detected_templates. \<forall>owner r.
              (t, [Str k, Str owner, r]) \<notin>
                set (infos (report_libs realpath installed load_testing_package load_from_db
                       pkginfo st)))) \<and>
        (map_of mp0 k = Some (pi_name pkginfo) \<longrightarrow>
           k \<notin> fst ` set (filter_internal (pi_name pkginfo) mp0) \<and>
           (\<forall>owner r.
              (''libdepends-missing-provides %s %s (%s)'', [Str k, Str owner, r]) \<notin>
                set (infos (report_libs realpath installed load_testing_package load_from_db
                       pkginfo st)))) \<and>
        (\<forall>t\<in>set (''libdepends-missing-provides %s %s (%s)'' # detected_templates). \<forall>k' r.
           (t, [Str k', Str (pi_name pkginfo), r]) \<notin>
             set (infos (report_libs realpath installed load_testing_package load_from_db
                    pkginfo st))) \<and>
        (k \<in> fst ` set ldl0 \<union> fst ` set mp0 \<and>
         map_of ldl0 k \<in> {None, Some (pi_name pkginfo)} \<and>
         map_of mp0 k \<in> {None, Some (pi_name pkginfo)} \<longrightarrow>
           k \<notin> fst ` set (filter_internal (pi_name pkginfo) ldl0) \<and>
           k \<notin> fst ` set (filter_internal (pi_name pkginfo) mp0) \<and>
           (\<forall>t\<in>set (''libdepends-missing-provides %s %s (%s)'' # detected_templates).
              \<forall>owner r.
                (t, [Str k, Str owner, r]) \<notin>
                  set (infos (report_libs realpath installed load_testing_package load_from_db
                         pkginfo st)))))"
proof -
  obtain dl ldl0 orphans mp0
    where fd: "finddepends realpath installed (libdepends st) = (dl, ldl0, orphans, mp0)"
    by (cases "finddepends realpath installed (libdepends st)") auto
  define name where "name = pi_name pkginfo"
  define shown where
    "shown = set (infos (report_libs realpath installed load_testing_package load_from_db
                    pkginfo st))"
  define tm where "tm = ''libdepends-missing-provides %s %s (%s)''"
  from match_all_distinct [of realpath installed "libdepends st"] fd
  have dist: "distinct (map fst ldl0)" "distinct (map fst mp0)"
    by (simp_all add: finddepends_def Let_def)
  have det: "(k', owner) \<in> set (filter_internal name ldl0)"
    if "t \<in> set detected_templates" "(t, [Str k', Str owner, r]) \<in> shown" for t k' owner r
    using infos_detected [of t k' owner r realpath installed load_testing_package load_from_db
        pkginfo st] that fd
    by (simp add: shown_def name_def)
  have mis: "(k', owner) \<in> set (filter_internal name mp0)"
    if "(tm, [Str k', Str owner, r]) \<in> shown" for k' owner r
    using infos_missing [of k' owner r realpath installed load_testing_package load_from_db
        pkginfo st] that fd
    by (simp add: shown_def name_def tm_def)
  have a: "k \<notin> fst ` set (filter_internal name ldl0) \<and>
      (\<forall>t\<in>set detected_templates. \<forall>owner r. (t, [Str k, Str owner, r]) \<notin> shown)"
    if "map_of ldl0 k = Some name"
  proof -
    from filter_internal_removes [OF dist(1) that]
    have "k \<notin> fst ` set (filter_internal name ldl0)" .
    moreover from this det have
      "\<forall>t\<in>set detected_templates. \<forall>owner r. (t, [Str k, Str owner, r]) \<notin> shown"
      by (metis fst_conv image_eqI)
    ultimately show ?thesis by blast
  qed
  have b: "k \<notin> fst ` set (filter_internal name mp0) \<and>
      (\<forall>owner r. (tm, [Str k, Str owner, r]) \<notin> shown)"
    if "map_of mp0 k = Some name"
  proof -
    from filter_internal_removes [OF dist(2) that]
    have "k \<notin> fst ` set (filter_internal name mp0)" .
    moreover from this mis have "\<forall>owner r. (tm, [Str k, Str owner, r]) \<notin> shown"
      by (metis fst_conv image_eqI)
    ultimately show ?thesis by blast
  qed
  have c: "\<forall>t\<in>set (tm # detected_templates). \<forall>k' r. (t, [Str k', Str name, r]) \<notin> shown"
  proof (intro ballI allI notI)
    fix t k' r
    assume t: "t \<in> set (tm # detected_templates)"
      and i: "(t, [Str k', Str name, r]) \<in> shown"
    from t have "t = tm \<or> t \<in> set detected_templates"
      by simp
    then show False
    proof
      assume "t = tm"
      with i mis have "(k', name) \<in> set (filter_internal name mp0)" by blast
      then show False using filter_internal_owner by blast
    next
      assume "t \<in> set detected_templates"
      with i det have "(k', name) \<in> set (filter_internal name ldl0)" by blast
      then show False using filter_internal_owner by blast
    qed
  qed
  have absent: "k \<notin> fst ` set (filter_internal name d)" if "map_of d k = None"
    for d :: "(string \<times> string) list"
  proof -
    from that have "k \<notin> fst ` set d" by (simp add: map_of_eq_None_iff)
    then show ?thesis by (auto simp: filter_internal_def)
  qed
  have d: "k \<notin> fst ` set (filter_internal name ldl0) \<and>
      k \<notin> fst ` set (filter_internal name mp0) \<and>
      (\<forall>t\<in>set (tm # detected_templates). \<forall>owner r. (t, [Str k, Str owner, r]) \<notin> shown)"
    if "map_of ldl0 k \<in> {None, Some name}" "map_of mp0 k \<in> {None, Some name}"
  proof -
    from that(1) have l: "k \<notin> fst ` set (filter_internal name ldl0)"
      using absent [of ldl0] filter_internal_removes [OF dist(1)] by blast
    from that(2) have m: "k \<notin> fst ` set (filter_internal name mp0)"
      using absent [of mp0] filter_internal_removes [OF dist(2)] by blast
    have "(t, [Str k, Str owner, r]) \<notin> shown" if "t \<in> set (tm # detected_templates)"
      for t owner r
    proof
      assume i: "(t, [Str k, Str owner, r]) \<in> shown"
      from that have "t = tm \<or> t \<in> set detected_templates" by simp
      then show False
      proof
        assume "t = tm"
        with i mis have "(k, owner) \<in> set (filter_internal name mp0)" by blast
        with m show False by (metis fst_conv image_eqI)
      next
        assume "t \<in> set detected_templates"
        with i det have "(k, owner) \<in> set (filter_internal name ldl0)" by blast
        with l show False by (metis fst_conv image_eqI)
      qed
    qed
    with l m show ?thesis by blast
  qed
  have "(map_of ldl0 k = Some name \<longrightarrow>
           k \<notin> fst ` set (filter_internal name ldl0) \<and>
           (\<forall>t\<in>set detected_templates. \<forall>owner r. (t, [Str k, Str owner, r]) \<notin> shown)) \<and>
        (map_of mp0 k = Some name \<longrightarrow>
           k \<notin> fst ` set (filter_internal name mp0) \<and>
           (\<forall>owner r. (tm, [Str k, Str owner, r]) \<notin> shown)) \<and>
        (\<forall>t\<in>set (tm # detected_templates). \<forall>k' r. (t, [Str k', Str name, r]) \<notin> shown) \<and>
        (k \<in> fst ` set ldl0 \<union> fst ` set mp0 \<and>
         map_of ldl0 k \<in> {None, Some name} \<and> map_of mp0 k \<in> {None, Some name} \<longrightarrow>
           k \<notin> fst ` set (filter_internal name ldl0) \<and>
           k \<notin> fst ` set (filter_internal name mp0) \<and>
           (\<forall>t\<in>set (tm # detected_templates). \<forall>owner r.
              (t, [Str k, Str owner, r]) \<notin> shown))"
    using a b c d by blast
  then show ?thesis
    unfolding fd prod.case name_def shown_def tm_def .
qed

theorem internal_dependencies_filtered_witness:
  "finddepends (\<lambda>p. p)
     [\<lparr>pkg_name = ''app'',
       pkg_files = [(''usr/lib/libfoo.so.2.0.1'', 0, 0), (''usr/lib/libbaz.so.3'', 0, 0)],
       pkg_provides = [''libfoo.so=2-64'']\<rparr>,
      \<lparr>pkg_name = ''bar'', pkg_files = [(''usr/lib/libbar.so.1'', 0, 0)], pkg_provides = []\<rparr>]
     [(''libfoo.so=2-64'', ''usr/lib/libfoo.so.2''), (''libbaz.so=3-64'', ''usr/lib/libbaz.so.3''),
      (''libbar.so=1-64'', ''usr/lib/libbar.so.1'')] =
   ([(''app'', {''usr/lib/libbaz.so.3'', ''usr/lib/libfoo.so.2''}),
     (''bar'', {''usr/lib/libbar.so.1''})],
    [(''libfoo.so=2-64'', ''app'')], [],
    [(''libbaz.so=3-64'', ''app''), (''libbar.so=1-64'', ''bar'')]) \<and>
   infos (report_libs (\<lambda>p. p)
     [\<lparr>pkg_name = ''app'',
       pkg_files = [(''usr/lib/libfoo.so.2.0.1'', 0, 0), (''usr/lib/libbaz.so.3'', 0, 0)],
       pkg_provides = [''libfoo.so=2-64'']\<rparr>,
      \<lparr>pkg_name = ''bar'', pkg_files = [(''usr/lib/libbar.so.1'', 0, 0)], pkg_provides = []\<rparr>]
     (\<lambda>n. None) (\<lambda>n. None)
     \<lparr>pi_name = ''app'', pi_depends = [], pi_optdepends = [], pi_provides = [],
       detected_deps = []\<rparr>
     \<lparr>liblist = [(''usr/lib/libfoo.so.2'', {''usr/bin/app''}),
                 (''usr/lib/libbaz.so.3'', {''usr/bin/app''}),
                 (''usr/lib/libbar.so.1'', {''usr/bin/app''})],
       libdepends = [(''libfoo.so=2-64'', ''usr/lib/libfoo.so.2''),
                     (''libbaz.so=3-64'', ''usr/lib/libbaz.so.3''),
                     (''libbar.so=1-64'', ''usr/lib/libbar.so.1'')],
       libprovides = []\<rparr>) =
   [(''libdepends-missing-provides %s %s (%s)'',
     [Str ''libbar.so=1-64'', Str ''bar'', Files {''usr/bin/app''}]),
    (''link-level-dependence %s in %s'',
     [Str ''app'', Files {''usr/lib/libbaz.so.3'', ''usr/lib/libfoo.so.2''}]),
    (''link-level-dependence %s in %s'', [Str ''bar'', Files {''usr/lib/libbar.so.1''}]),
    (''libdepends-by-namcap-sight depends=(%s)'', [Str ''bar'']),
    (''libprovides-by-namcap-sight provides=(%s)'', [Str []])]"
proof -
  have fd: "finddepends (\<lambda>p. p)
     [\<lparr>pkg_name = ''app'',
       pkg_files = [(''usr/lib/libfoo.so.2.0.1'', 0, 0), (''usr/lib/libbaz.so.3'', 0, 0)],
       pkg_provides = [''libfoo.so=2-64'']\<rparr>,
      \<lparr>pkg_name = ''bar'', pkg_files = [(''usr/lib/libbar.so.1'', 0, 0)], pkg_provides = []\<rparr>]
     [(''libfoo.so=2-64'', ''usr/lib/libfoo.so.2''), (''libbaz.so=3-64'', ''usr/lib/libbaz.so.3''),
      (''libbar.so=1-64'', ''usr/lib/libbar.so.1'')] =
   ([(''app'', {''usr/lib/libbaz.so.3'', ''usr/lib/libfoo.so.2''}),
     (''bar'', {''usr/lib/libbar.so.1''})],
    [(''libfoo.so=2-64'', ''app'')], [],
    [(''libbaz.so=3-64'', ''app''), (''libbar.so=1-64'', ''bar'')])"
    by (simp add: lib_match_prefix finddepends_def match_all_def match_pkg_def
      match_file_def match_key_def knownlibs_def actualpath_def dd_str_def dd_add_def dd_set_def
      is_so_search_def Let_def)
  note inst = internal_dependencies_filtered [where realpath = "\<lambda>p. p" and installed =
      "[\<lparr>pkg_name = ''app'',
         pkg_files = [(''usr/lib/libfoo.so.2.0.1'', 0, 0), (''usr/lib/libbaz.so.3'', 0, 0)],
         pkg_provides = [''libfoo.so=2-64'']\<rparr>,
        \<lparr>pkg_name = ''bar'', pkg_files = [(''usr/lib/libbar.so.1'', 0, 0)], pkg_provides = []\<rparr>]"
      and load_testing_package = "\<lambda>n. None" and load_from_db = "\<lambda>n. None"
      and pkginfo = "\<lparr>pi_name = ''app'', pi_depends = [], pi_optdepends = [], pi_provides = [],
         detected_deps = []\<rparr>"
      and st = "\<lparr>liblist = [(''usr/lib/libfoo.so.2'', {''usr/bin/app''}),
                 (''usr/lib/libbaz.so.3'', {''usr/bin/app''}),
                 (''usr/lib/libbar.so.1'', {''usr/bin/app''})],
         libdepends = [(''libfoo.so=2-64'', ''usr/lib/libfoo.so.2''),
                     (''libbaz.so=3-64'', ''usr/lib/libbaz.so.3''),
                     (''libbar.so=1-64'', ''usr/lib/libbar.so.1'')],
         libprovides = []\<rparr>"]
  show ?thesis
    using inst [where k = "''libfoo.so=2-64''"] inst [where k = "''libbaz.so=3-64''"] fd
    by (simp add: report_libs_def Let_def filter_internal_def missing_provides_infos_def
        link_level_infos_def provides_infos_def requesters_def dd_str_def dd_set_def
        sorted_union_def)
qed

text \<open>
  The claim as stated fails, since one key can be in both maps. Here the analyzed package
  \<open>app\<close> has the required file and declares the key, and the package \<open>other\<close> has a
  file with a version suffix and declares nothing. The owner map records \<open>app\<close> and the
  missing-provides map records \<open>other\<close>; the filter leaves the second entry, and the
  diagnostic \<open>libdepends-missing-provides\<close> is emitted for the key.
\<close>

theorem internal_dependencies_counterexample:
  "finddepends (\<lambda>p. p)
     [\<lparr>pkg_name = ''app'', pkg_files = [(''usr/lib/libfoo.so.2'', 0, 0)],
       pkg_provides = [''libfoo.so=2-64'']\<rparr>,
      \<lparr>pkg_name = ''other'', pkg_files = [(''usr/lib/libfoo.so.2.0.1'', 0, 0)],
       pkg_provides = []\<rparr>]
     [(''libfoo.so=2-64'', ''usr/lib/libfoo.so.2'')] =
   ([(''app'', {''usr/lib/libfoo.so.2''}), (''other'', {''usr/lib/libfoo.so.2''})],
    [(''libfoo.so=2-64'', ''app'')], [], [(''libfoo.so=2-64'', ''other'')]) \<and>
   filter_internal ''app'' [(''libfoo.so=2-64'', ''other'')] = [(''libfoo.so=2-64'', ''other'')] \<and>
   infos (report_libs (\<lambda>p. p)
     [\<lparr>pkg_name = ''app'', pkg_files = [(''usr/lib/libfoo.so.2'', 0, 0)],
       pkg_provides = [''libfoo.so=2-64'']\<rparr>,
      \<lparr>pkg_name = ''other'', pkg_files = [(''usr/lib/libfoo.so.2.0.1'', 0, 0)],
       pkg_provides = []\<rparr>]
     (\<lambda>n. None) (\<lambda>n. None)
     \<lparr>pi_name = ''app'', pi_depends = [], pi_optdepends = [], pi_provides = [],
       detected_deps = []\<rparr>
     \<lparr>liblist = [(''usr/lib/libfoo.so.2'', {''usr/bin/app''})],
       libdepends = [(''libfoo.so=2-64'', ''usr/lib/libfoo.so.2'')],
       libprovides = []\<rparr>) =
   [(''libdepends-missing-provides %s %s (%s)'',
     [Str ''libfoo.so=2-64'', Str ''other'', Files {''usr/bin/app''}]),
    (''link-level-dependence %s in %s'', [Str ''app'', Files {''usr/lib/libfoo.so.2''}]),
    (''link-level-dependence %s in %s'', [Str ''other'', Files {''usr/lib/libfoo.so.2''}]),
    (''libdepends-by-namcap-sight depends=(%s)'', [Str ''other'']),
    (''libprovides-by-namcap-sight provides=(%s)'', [Str []])]"
proof -
  have fd: "finddepends (\<lambda>p. p)
     [\<lparr>pkg_name = ''app'', pkg_files = [(''usr/lib/libfoo.so.2'', 0, 0)],
       pkg_provides = [''libfoo.so=2-64'']\<rparr>,
      \<lparr>pkg_name = ''other'', pkg_files = [(''usr/lib/libfoo.so.2.0.1'', 0, 0)],
       pkg_provides = []\<rparr>]
     [(''libfoo.so=2-64'', ''usr/lib/libfoo.so.2'')] =
   ([(''app'', {''usr/lib/libfoo.so.2''}), (''other'', {''usr/lib/libfoo.so.2''})],
    [(''libfoo.so=2-64'', ''app'')], [], [(''libfoo.so=2-64'', ''other'')])"
    by (simp add: lib_match_prefix finddepends_def match_all_def match_pkg_def
      match_file_def match_key_def knownlibs_def actualpath_def dd_str_def dd_add_def dd_set_def
      is_so_search_def Let_def)
  show ?thesis
    using fd
    by (simp add: report_libs_def Let_def filter_internal_def missing_provides_infos_def
        link_level_infos_def provides_infos_def requesters_def dd_str_def dd_set_def
        sorted_union_def)
qed

end
